theory Spec2Isabelle
  imports Main
begin

section \<open>JavaScript values as the relay sees them\<close>

text \<open>
  The values that \<^verbatim>\<open>JSON.parse\<close> and \<^verbatim>\<open>express.json()\<close> hand to \<^verbatim>\<open>server.js\<close>.
  A text is the list of its code units; the 8-bit \<^typ>\<open>char\<close> covers U+0000 to U+00FF.
  A number is kept as the two things the program can observe of it: whether it is
  truthy (neither zero nor NaN) and the text that string concatenation gives it.
  An object is the list of its own properties, one entry per name.
  \<^verbatim>\<open>undefined\<close> is \<open>None\<close> of \<open>json option\<close>.
\<close>

datatype json =
    JNull
  | JBool bool
  | JNum bool string
  | JStr string
  | JArr "json list"
  | JObj "(string \<times> json) list"

type_synonym jsval = "json option"

datatype js_error = SyntaxError | TypeError | UpstreamError string

text \<open>Truthiness, as \<^verbatim>\<open>!x\<close>, \<^verbatim>\<open>x && y\<close> and \<^verbatim>\<open>x || y\<close> test it.\<close>

fun truthy :: "jsval \<Rightarrow> bool" where
  "truthy None = False"
| "truthy (Some JNull) = False"
| "truthy (Some (JBool b)) = b"
| "truthy (Some (JNum nz shown)) = nz"
| "truthy (Some (JStr s)) = (s \<noteq> [])"
| "truthy (Some (JArr xs)) = True"
| "truthy (Some (JObj fs)) = True"

text \<open>
  \<^verbatim>\<open>v.name\<close> for the names the program reads (\<^verbatim>\<open>choices\<close>, \<^verbatim>\<open>delta\<close>, \<^verbatim>\<open>content\<close>,
  \<^verbatim>\<open>model\<close>, \<^verbatim>\<open>request\<close>, \<^verbatim>\<open>message\<close>), none of which a built-in prototype defines:
  reading from \<^verbatim>\<open>null\<close> or \<^verbatim>\<open>undefined\<close> throws, an object gives its own property,
  every other value gives \<^verbatim>\<open>undefined\<close>.
\<close>

fun member :: "jsval \<Rightarrow> string \<Rightarrow> js_error + jsval" where
  "member None name = Inl TypeError"
| "member (Some JNull) name = Inl TypeError"
| "member (Some (JObj fs)) name = Inr (map_of fs name)"
| "member (Some v) name = Inr None"

text \<open>\<^verbatim>\<open>v[0]\<close>: the first element of an array, the first code unit of a text,
  the property \<^verbatim>\<open>"0"\<close> of an object.\<close>

fun first :: "jsval \<Rightarrow> js_error + jsval" where
  "first None = Inl TypeError"
| "first (Some JNull) = Inl TypeError"
| "first (Some (JArr [])) = Inr None"
| "first (Some (JArr (x # xs))) = Inr (Some x)"
| "first (Some (JStr [])) = Inr None"
| "first (Some (JStr (c # cs))) = Inr (Some (JStr [c]))"
| "first (Some (JObj fs)) = Inr (map_of fs ''0'')"
| "first (Some v) = Inr None"

text \<open>\<^verbatim>\<open>a && f(a)\<close>: the right operand is evaluated only when the left one is truthy;
  an exception on either side propagates.\<close>

definition and_then :: "js_error + jsval \<Rightarrow> (jsval \<Rightarrow> js_error + jsval) \<Rightarrow> js_error + jsval" where
  "and_then a f = (case a of Inl e \<Rightarrow> Inl e | Inr v \<Rightarrow> if truthy v then f v else Inr v)"

fun join :: "string \<Rightarrow> string list \<Rightarrow> string" where
  "join sep [] = []"
| "join sep [x] = x"
| "join sep (x # y # ys) = x @ sep @ join sep (y # ys)"

text \<open>
  The text that \<^verbatim>\<open>s += v\<close> appends, and that a template literal puts for
  \<^verbatim>\<open>${v}\<close>, for a value out of \<^verbatim>\<open>JSON.parse\<close>. A text is
  taken as it is. An array is joined with commas, \<^verbatim>\<open>null\<close> elements giving the empty
  text. A plain object gives \<^verbatim>\<open>[object Object]\<close> through \<^verbatim>\<open>Object.prototype.toString\<close>,
  unless an own property \<^verbatim>\<open>toString\<close> (never callable in parsed JSON) hides it: then the
  conversion throws a \<^verbatim>\<open>TypeError\<close>, which is \<open>None\<close> here.
\<close>

fun to_text :: "json \<Rightarrow> string option" where
  "to_text JNull = Some ''null''"
| "to_text (JBool b) = Some (if b then ''true'' else ''false'')"
| "to_text (JNum nz shown) = Some shown"
| "to_text (JStr s) = Some s"
| "to_text (JObj fs) =
     (if map_of fs ''toString'' = None then Some ''[object Object]'' else None)"
| "to_text (JArr xs) =
     map_option (join '','')
       (those (map (\<lambda>x. if x = JNull then Some [] else to_text x) xs))"

text \<open>\<^verbatim>\<open>${v}\<close> in a template literal; \<open>None\<close> when the conversion throws a
  \<^verbatim>\<open>TypeError\<close>.\<close>

fun template :: "jsval \<Rightarrow> string option" where
  "template None = Some ''undefined''"
| "template (Some v) = to_text v"

text \<open>\<^verbatim>\<open>v || d\<close>, for a right operand that is defined.\<close>

definition or_else :: "jsval \<Rightarrow> json \<Rightarrow> json" where
  "or_else v d = (case v of None \<Rightarrow> d | Some x \<Rightarrow> if truthy (Some x) then x else d)"

section \<open>Texts: lines, trimming, prefixes\<close>

definition LF :: char where "LF = CHR 0x0A"
definition CR :: char where "CR = CHR 0x0D"

text \<open>\<^verbatim>\<open>String.prototype.trim\<close> strips white space and line terminators; below U+0100
  these are TAB, LF, VT, FF, CR, SP and NBSP.\<close>

definition is_space :: "char \<Rightarrow> bool" where
  "is_space c \<longleftrightarrow>
     c \<in> set [CHR 0x09, CHR 0x0A, CHR 0x0B, CHR 0x0C, CHR 0x0D, CHR 0x20, CHR 0xA0]"

definition trim :: "string \<Rightarrow> string" where
  "trim s = rev (dropWhile is_space (rev (dropWhile is_space s)))"

definition startsWith :: "string \<Rightarrow> string \<Rightarrow> bool" where
  "startsWith s p \<longleftrightarrow> take (length p) s = p"

definition substring :: "string \<Rightarrow> nat \<Rightarrow> string" where
  "substring s n = drop n s"

fun cons_first :: "char \<Rightarrow> string list \<Rightarrow> string list" where
  "cons_first c [] = [[c]]"
| "cons_first c (l # ls) = (c # l) # ls"

text \<open>\<^verbatim>\<open>text.split(/\r?\n/)\<close>: a line feed, or a carriage return directly followed by one,
  ends a line; the empty text is one empty line.\<close>

fun split_lines :: "string \<Rightarrow> string list" where
  "split_lines [] = [[]]"
| "split_lines [c] = (if c = LF then [[], []] else [[c]])"
| "split_lines (c # d # cs) =
     (if c = LF then [] # split_lines (d # cs)
      else if c = CR \<and> d = LF then [] # split_lines cs
      else cons_first c (split_lines (d # cs)))"

section \<open>The streaming-completion client\<close>

text \<open>
  The runtime the source calls into: \<^verbatim>\<open>JSON.parse\<close> (\<open>None\<close> when it throws a
  \<^verbatim>\<open>SyntaxError\<close>) and the message text the engine gives to its own errors.
\<close>

record runtime =
  JSON_parse :: "string \<Rightarrow> json option"
  engine_message :: "js_error \<Rightarrow> string"

definition DEEPSEEK_MODEL_CLASS :: string where
  "DEEPSEEK_MODEL_CLASS = ''deepseek_code''"

definition VALID_MODELS :: "string list" where
  "VALID_MODELS = [''deepseek_code'', ''deepseek_chat'']"

text \<open>\<^verbatim>\<open>chunkData.choices && chunkData.choices[0] && chunkData.choices[0].delta &&
  chunkData.choices[0].delta.content\<close> (line 84).\<close>

definition delta_content :: "json \<Rightarrow> js_error + jsval" where
  "delta_content chunkData =
     and_then (and_then (and_then (member (Some chunkData) ''choices'') first)
       (\<lambda>c. member c ''delta'')) (\<lambda>d. member d ''content'')"

text \<open>The body of the \<^verbatim>\<open>try\<close> (lines 83 to 86): the accumulator after it, or what it throws.\<close>

definition try_line :: "runtime \<Rightarrow> string \<Rightarrow> string \<Rightarrow> js_error + string" where
  "try_line rt combinedResponse payload =
     (case JSON_parse rt payload of
        None \<Rightarrow> Inl SyntaxError
      | Some chunkData \<Rightarrow>
          (case delta_content chunkData of
             Inl e \<Rightarrow> Inl e
           | Inr None \<Rightarrow> Inr combinedResponse
           | Inr (Some content) \<Rightarrow>
               if truthy (Some content) then
                 (case to_text content of
                    None \<Rightarrow> Inl TypeError
                  | Some s \<Rightarrow> Inr (combinedResponse @ s))
               else Inr combinedResponse))"

text \<open>One turn of the \<^verbatim>\<open>for\<close> loop (lines 80 to 90); the \<^verbatim>\<open>catch\<close> logs and goes on.\<close>

definition on_line :: "runtime \<Rightarrow> string \<Rightarrow> string \<Rightarrow> string" where
  "on_line rt combinedResponse line =
     (if startsWith (trim line) ''data: '' then
        (case try_line rt combinedResponse (substring (trim line) 6) of
           Inl e \<Rightarrow> combinedResponse
         | Inr r \<Rightarrow> r)
      else combinedResponse)"

text \<open>The \<^verbatim>\<open>'data'\<close> listener (lines 77 to 92).\<close>

definition on_data :: "runtime \<Rightarrow> string \<Rightarrow> string \<Rightarrow> string" where
  "on_data rt combinedResponse chunk = foldl (on_line rt) combinedResponse (split_lines chunk)"

text \<open>
  The events of the response stream (a chunk as \<^verbatim>\<open>chunk.toString('utf8')\<close> gives it, the
  end, an error with its message), and the promise of lines 75 to 103: the first
  \<^verbatim>\<open>'end'\<close> or \<^verbatim>\<open>'error'\<close> settles it, later ones change nothing.
\<close>

datatype stream_event = Data string | End | Error string

datatype promise = Pending | Resolved string | Rejected js_error

record listener =
  combinedResponse :: string
  settled :: promise

definition on_event :: "runtime \<Rightarrow> listener \<Rightarrow> stream_event \<Rightarrow> listener" where
  "on_event rt st ev =
     (case ev of
        Data chunk \<Rightarrow> st\<lparr>combinedResponse := on_data rt (combinedResponse st) chunk\<rparr>
      | End \<Rightarrow>
          (if settled st = Pending then st\<lparr>settled := Resolved (combinedResponse st)\<rparr> else st)
      | Error err \<Rightarrow>
          (if settled st = Pending then st\<lparr>settled := Rejected (UpstreamError err)\<rparr> else st))"

definition drain :: "runtime \<Rightarrow> stream_event list \<Rightarrow> promise" where
  "drain rt events =
     settled (foldl (on_event rt) \<lparr>combinedResponse = [], settled = Pending\<rparr> events)"

section \<open>The upstream service and the two clients\<close>

text \<open>
  What the upstream answers to a POST, given the \<^verbatim>\<open>Authorization\<close> header and the payload:
  for \<^verbatim>\<open>clear_context\<close> the message of the error axios rejects with, or the response data;
  for \<^verbatim>\<open>completions\<close> that message, or the events of the response stream.
\<close>

record upstream =
  clear_context :: "string \<Rightarrow> json \<Rightarrow> string + json"
  completions :: "string \<Rightarrow> json \<Rightarrow> string + stream_event list"

datatype upstream_call = ClearContext string json | Completions string json

text \<open>A property of an object literal; \<^verbatim>\<open>undefined\<close> is left out when the payload is serialised.\<close>

fun field :: "string \<Rightarrow> jsval \<Rightarrow> (string \<times> json) list" where
  "field name None = []"
| "field name (Some v) = [(name, v)]"

definition bearer :: "string \<Rightarrow> string" where
  "bearer key = ''Bearer '' @ key"

definition clearPayload :: json where
  "clearPayload =
     JObj [(''model_class'', JStr DEEPSEEK_MODEL_CLASS), (''append_welcome_message'', JBool False)]"

text \<open>\<^verbatim>\<open>clearChatContext\<close> (lines 20 to 44): what it throws, if anything, and the request it made.
  The 2-second delay is not modelled.\<close>

definition clearChatContext :: "upstream \<Rightarrow> string \<Rightarrow> js_error option \<times> upstream_call list" where
  "clearChatContext up key =
     (case clear_context up (bearer key) clearPayload of
        Inl err \<Rightarrow> (Some (UpstreamError err), [ClearContext (bearer key) clearPayload])
      | Inr data \<Rightarrow> (None, [ClearContext (bearer key) clearPayload]))"

definition userPayload :: "jsval \<Rightarrow> jsval \<Rightarrow> json" where
  "userPayload message model =
     JObj (field ''message'' message @
       [(''stream'', JBool True),
        (''model_preference'', JNull),
        (''model_class'', or_else model (JStr DEEPSEEK_MODEL_CLASS)),
        (''temperature'', JNum True ''1'')])"

text \<open>\<^verbatim>\<open>sendMessage\<close> (lines 53 to 108): the promise it returns and the request it made.\<close>

definition sendMessage ::
  "runtime \<Rightarrow> upstream \<Rightarrow> string \<Rightarrow> jsval \<Rightarrow> jsval \<Rightarrow> promise \<times> upstream_call list" where
  "sendMessage rt up key message model =
     (case completions up (bearer key) (userPayload message model) of
        Inl err \<Rightarrow>
          (Rejected (UpstreamError err), [Completions (bearer key) (userPayload message model)])
      | Inr events \<Rightarrow>
          (drain rt events, [Completions (bearer key) (userPayload message model)]))"

section \<open>The HTTP handler\<close>

record response =
  status :: nat
  body :: json

text \<open>What one request leads to: the response sent (\<open>None\<close> when none is ever sent) and
  the upstream requests made, in order.\<close>

record outcome =
  reply :: "response option"
  calls :: "upstream_call list"

definition error_json :: "string \<Rightarrow> json" where
  "error_json msg = JObj [(''error'', JStr msg)]"

definition error_message :: "runtime \<Rightarrow> js_error \<Rightarrow> string" where
  "error_message rt e = (case e of UpstreamError msg \<Rightarrow> msg | _ \<Rightarrow> engine_message rt e)"

text \<open>The \<^verbatim>\<open>catch\<close> of lines 155 to 158.\<close>

definition failed :: "runtime \<Rightarrow> js_error \<Rightarrow> upstream_call list \<Rightarrow> outcome" where
  "failed rt e cs =
     \<lparr>reply = Some \<lparr>status = 500,
        body = error_json (''Failed to process the request. Details: '' @ error_message rt e)\<rparr>,
      calls = cs\<rparr>"

text \<open>\<^verbatim>\<open>VALID_MODELS.includes(model)\<close>: strict equality with one of the texts.\<close>

fun array_includes :: "string list \<Rightarrow> jsval \<Rightarrow> bool" where
  "array_includes ms (Some (JStr m)) = (m \<in> set ms)"
| "array_includes ms v = False"

text \<open>\<^verbatim>\<open>const { message } = request || {}\<close> (line 125).\<close>

definition message_of :: "jsval \<Rightarrow> js_error + jsval" where
  "message_of request = (if truthy request then member request ''message'' else Inr None)"

text \<open>
  The handler of \<^verbatim>\<open>POST /api/v1/chat/completions\<close> (lines 116 to 159), given the value of
  \<^verbatim>\<open>process.env.DEEPSEEK\<close> (\<open>None\<close> when unset), the upstream and \<^verbatim>\<open>req.body\<close> as
  \<^verbatim>\<open>express.json()\<close> left it: the parsed object or array, or an empty object when there
  was nothing to parse. Console output is not modelled.
\<close>

text \<open>Lines 119 to 137: the response of an early \<^verbatim>\<open>return\<close> (\<open>no_key\<close> is the one of
  lines 119 to 122) or of the \<^verbatim>\<open>catch\<close>, when destructuring throws or when the
  \<^verbatim>\<open>${model}\<close> of the log line 135 throws, or else the key, \<^verbatim>\<open>message\<close> and \<^verbatim>\<open>model\<close>
  the rest goes on with.\<close>

definition no_key :: outcome where
  "no_key =
     \<lparr>reply = Some \<lparr>status = 500,
        body = error_json ''DeepSeek API key is not provided in environment variables.''\<rparr>,
      calls = []\<rparr>"

definition validation ::
  "runtime \<Rightarrow> string option \<Rightarrow> json \<Rightarrow> outcome + string \<times> jsval \<times> jsval" where
  "validation rt DEEPSEEK req_body =
     (case DEEPSEEK of
        None \<Rightarrow> Inl no_key
      | Some key \<Rightarrow>
          if key = [] then Inl no_key
          else
            (case member (Some req_body) ''model'' of
               Inl e \<Rightarrow> Inl (failed rt e [])
             | Inr model \<Rightarrow>
                 (case member (Some req_body) ''request'' of
                    Inl e \<Rightarrow> Inl (failed rt e [])
                  | Inr request \<Rightarrow>
                      (case message_of request of
                         Inl e \<Rightarrow> Inl (failed rt e [])
                       | Inr message \<Rightarrow>
                           if \<not> truthy message then
                             Inl \<lparr>reply = Some \<lparr>status = 400,
                                body = error_json ''Message is required.''\<rparr>,
                              calls = []\<rparr>
                           else if truthy model \<and> \<not> array_includes VALID_MODELS model then
                             (case template model of
                                None \<Rightarrow> Inl (failed rt TypeError [])
                              | Some shown \<Rightarrow>
                                  Inl \<lparr>reply = Some \<lparr>status = 400,
                                     body = error_json
                                       (''Invalid model. Valid models are: '' @
                                        join '', '' VALID_MODELS)\<rparr>,
                                   calls = []\<rparr>)
                           else Inr (key, message, model)))))"

text \<open>Lines 139 to 158: clear the context, send the message, answer.\<close>

definition after_validation ::
  "runtime \<Rightarrow> upstream \<Rightarrow> string \<Rightarrow> jsval \<Rightarrow> jsval \<Rightarrow> outcome" where
  "after_validation rt up key message model =
     (case clearChatContext up key of
        (Some e, cs) \<Rightarrow> failed rt e cs
      | (None, cs) \<Rightarrow>
          (case sendMessage rt up key message model of
             (Pending, cs') \<Rightarrow> \<lparr>reply = None, calls = cs @ cs'\<rparr>
           | (Rejected e, cs') \<Rightarrow> failed rt e (cs @ cs')
           | (Resolved userResponse, cs') \<Rightarrow>
               \<lparr>reply = Some \<lparr>status = 200,
                  body = JObj [(''response'', JStr ([] @ userResponse))]\<rparr>,
                calls = cs @ cs'\<rparr>))"

definition handler :: "runtime \<Rightarrow> string option \<Rightarrow> upstream \<Rightarrow> json \<Rightarrow> outcome" where
  "handler rt DEEPSEEK up req_body =
     (case validation rt DEEPSEEK req_body of
        Inl early \<Rightarrow> early
      | Inr (key, message, model) \<Rightarrow> after_validation rt up key message model)"

section \<open>The shapes the specification names\<close>

text \<open>What a line adds to the accumulator: the loop body run on the empty accumulator.\<close>

definition line_delta :: "runtime \<Rightarrow> string \<Rightarrow> string" where
  "line_delta rt line = on_line rt [] line"

text \<open>A chunk of whole lines: it is empty or ends with a line feed.\<close>

definition whole_lines :: "string \<Rightarrow> bool" where
  "whole_lines chunk \<longleftrightarrow> chunk = [] \<or> last chunk = LF"

text \<open>A line prefixed \<^verbatim>\<open>data: \<close> whose remainder is not valid JSON.\<close>

definition malformed :: "runtime \<Rightarrow> string \<Rightarrow> bool" where
  "malformed rt line \<longleftrightarrow>
     startsWith (trim line) ''data: '' \<and> JSON_parse rt (substring (trim line) 6) = None"

text \<open>
  The value at \<^verbatim>\<open>choices[0].delta.content\<close> of an event, when every step of the path is
  there: a name leads from an object to its own property, \<^verbatim>\<open>[0]\<close> from an array to its
  first element (and from an object to its property \<^verbatim>\<open>"0"\<close>).
\<close>

fun at_name :: "string \<Rightarrow> json \<Rightarrow> jsval" where
  "at_name name (JObj fs) = map_of fs name"
| "at_name name v = None"

fun at_first :: "json \<Rightarrow> jsval" where
  "at_first (JArr (x # xs)) = Some x"
| "at_first (JObj fs) = map_of fs ''0''"
| "at_first v = None"

definition content_at :: "json \<Rightarrow> jsval" where
  "content_at event =
     (case at_name ''choices'' event of
        None \<Rightarrow> None
      | Some choices \<Rightarrow>
          (case at_first choices of
             None \<Rightarrow> None
           | Some choice \<Rightarrow>
               (case at_name ''delta'' choice of
                  None \<Rightarrow> None
                | Some delta \<Rightarrow> at_name ''content'' delta)))"

text \<open>
  What a content adds to the response: a text adds itself; another truthy value adds its
  string conversion, when it has one; anything else adds nothing.
\<close>

fun appended :: "jsval \<Rightarrow> string" where
  "appended None = []"
| "appended (Some (JStr s)) = s"
| "appended (Some v) =
     (if truthy (Some v) then (case to_text v of None \<Rightarrow> [] | Some shown \<Rightarrow> shown) else [])"

text \<open>What a line stands for in the response: nothing unless it is prefixed \<^verbatim>\<open>data: \<close> and
  its remainder is JSON, and then what the content at \<^verbatim>\<open>choices[0].delta.content\<close> adds.\<close>

definition delta_of_line :: "runtime \<Rightarrow> string \<Rightarrow> string" where
  "delta_of_line rt line =
     (if startsWith (trim line) ''data: '' then
        (case JSON_parse rt (substring (trim line) 6) of
           None \<Rightarrow> []
         | Some event \<Rightarrow> appended (content_at event))
      else [])"

text \<open>Whether a value is a text, and the text it is (empty for any other value).\<close>

fun is_text :: "json \<Rightarrow> bool" where
  "is_text (JStr s) = True"
| "is_text v = False"

fun text_of :: "json \<Rightarrow> string" where
  "text_of (JStr s) = s"
| "text_of v = []"

text \<open>The text at \<^verbatim>\<open>choices[0].delta.content\<close> found in a line prefixed \<^verbatim>\<open>data: \<close>; the
  empty text when the line has no such prefix, is not JSON, or has no text there.\<close>

definition content_string :: "runtime \<Rightarrow> string \<Rightarrow> string" where
  "content_string rt line =
     (if startsWith (trim line) ''data: '' then
        (case JSON_parse rt (substring (trim line) 6) of
           None \<Rightarrow> []
         | Some event \<Rightarrow>
             (case content_at event of
                None \<Rightarrow> []
              | Some v \<Rightarrow> text_of v))
      else [])"

text \<open>A line whose \<^verbatim>\<open>choices[0].delta.content\<close>, if it has one that is truthy, is a text.\<close>

definition text_only :: "runtime \<Rightarrow> string \<Rightarrow> bool" where
  "text_only rt line =
     (if startsWith (trim line) ''data: '' then
        (case JSON_parse rt (substring (trim line) 6) of
           None \<Rightarrow> True
         | Some event \<Rightarrow>
             (case content_at event of
                None \<Rightarrow> True
              | Some v \<Rightarrow> is_text v \<or> \<not> truthy (Some v)))
      else True)"

text \<open>The value at \<^verbatim>\<open>request.message\<close> of a request body, when the body is an object whose
  \<^verbatim>\<open>request\<close> is an object.\<close>

definition request_message :: "json \<Rightarrow> jsval" where
  "request_message req_body =
     (case req_body of
        JObj fs \<Rightarrow>
          (case map_of fs ''request'' of
             Some (JObj rs) \<Rightarrow> map_of rs ''message''
           | _ \<Rightarrow> None)
      | _ \<Rightarrow> None)"

text \<open>The \<^verbatim>\<open>request\<close> field of a body is present and an object.\<close>

definition request_is_object :: "json \<Rightarrow> bool" where
  "request_is_object req_body =
     (case req_body of
        JObj fs \<Rightarrow> (case map_of fs ''request'' of Some (JObj rs) \<Rightarrow> True | _ \<Rightarrow> False)
      | _ \<Rightarrow> False)"

text \<open>An upstream that accepts the context reset and answers the completions request
  with the given stream.\<close>

definition streaming :: "stream_event list \<Rightarrow> upstream" where
  "streaming events =
     \<lparr>clear_context = (\<lambda>auth payload. Inr (JObj [])),
      completions = (\<lambda>auth payload. Inr events)\<rparr>"

text \<open>The event \<^verbatim>\<open>{"choices":[{"delta":{"content":s}}]}\<close>.\<close>

definition delta_event :: "string \<Rightarrow> json" where
  "delta_event s = JObj [(''choices'', JArr [JObj [(''delta'', JObj [(''content'', JStr s)])]])]"

section \<open>A JSON reader for the examples\<close>

text \<open>
  A reader for the part of JSON with objects, arrays, texts with the one-letter escapes,
  literals and integers of at most 15 digits, on which it returns what \<^verbatim>\<open>JSON.parse\<close>
  returns (a later duplicate of a name replaces the earlier value). It stands in for
  \<^verbatim>\<open>JSON.parse\<close> where a theorem about every runtime is applied to a concrete one.
\<close>

definition json_space :: "char \<Rightarrow> bool" where
  "json_space c \<longleftrightarrow> c \<in> set [CHR 0x20, CHR 0x09, CHR 0x0A, CHR 0x0D]"

definition skip_space :: "string \<Rightarrow> string" where
  "skip_space s = dropWhile json_space s"

definition unescape :: "char \<Rightarrow> char option" where
  "unescape e =
     map_of [(CHR 0x22, CHR 0x22), (CHR 0x5C, CHR 0x5C), (CHR ''/'', CHR ''/''),
             (CHR ''b'', CHR 0x08), (CHR ''f'', CHR 0x0C), (CHR ''n'', CHR 0x0A),
             (CHR ''r'', CHR 0x0D), (CHR ''t'', CHR 0x09)] e"

fun read_string :: "string \<Rightarrow> (string \<times> string) option" where
  "read_string [] = None"
| "read_string [c] = (if c = CHR 0x22 then Some ([], []) else None)"
| "read_string (c # e # cs) =
     (if c = CHR 0x22 then Some ([], e # cs)
      else if c = CHR 0x5C then
        (case unescape e of
           None \<Rightarrow> None
         | Some u \<Rightarrow> map_option (\<lambda>(s, rest). (u # s, rest)) (read_string cs))
      else if of_char c < (32 :: nat) then None
      else map_option (\<lambda>(s, rest). (c # s, rest)) (read_string (e # cs)))"

definition is_digit :: "char \<Rightarrow> bool" where
  "is_digit c \<longleftrightarrow> c \<in> set ''0123456789''"

definition read_number :: "string \<Rightarrow> (json \<times> string) option" where
  "read_number s =
     (let negative = (s \<noteq> [] \<and> hd s = CHR ''-'');
          r = (if negative then tl s else s);
          digits = takeWhile is_digit r;
          rest = dropWhile is_digit r
      in if digits = [] \<or> (hd digits = CHR ''0'' \<and> tl digits \<noteq> []) \<or> 15 < length digits
            \<or> (rest \<noteq> [] \<and> hd rest \<in> set ''.eE'')
         then None
         else if digits = ''0'' then Some (JNum False ''0'', rest)
         else Some (JNum True ((if negative then ''-'' else []) @ digits), rest))"

fun put :: "string \<Rightarrow> json \<Rightarrow> (string \<times> json) list \<Rightarrow> (string \<times> json) list" where
  "put k v [] = [(k, v)]"
| "put k v ((k', v') # ps) = (if k = k' then (k, v) # ps else (k', v') # put k v ps)"

definition literal :: "string \<Rightarrow> json \<Rightarrow> string \<Rightarrow> (json \<times> string) option" where
  "literal word v s = (if take (length word) s = word then Some (v, drop (length word) s) else None)"

fun read_value :: "nat \<Rightarrow> string \<Rightarrow> (json \<times> string) option"
and read_elements :: "nat \<Rightarrow> json list \<Rightarrow> string \<Rightarrow> (json \<times> string) option"
and read_members :: "nat \<Rightarrow> (string \<times> json) list \<Rightarrow> string \<Rightarrow> (json \<times> string) option" where
  "read_value 0 s = None"
| "read_value (Suc n) s =
     (case skip_space s of
        [] \<Rightarrow> None
      | c # cs \<Rightarrow>
          if c = CHR ''{'' then
            (case skip_space cs of
               [] \<Rightarrow> None
             | d # ds \<Rightarrow> if d = CHR ''}'' then Some (JObj [], ds) else read_members n [] cs)
          else if c = CHR ''['' then
            (case skip_space cs of
               [] \<Rightarrow> None
             | d # ds \<Rightarrow> if d = CHR '']'' then Some (JArr [], ds) else read_elements n [] cs)
          else if c = CHR 0x22 then map_option (\<lambda>(t, rest). (JStr t, rest)) (read_string cs)
          else if c = CHR ''t'' then literal ''true'' (JBool True) (c # cs)
          else if c = CHR ''f'' then literal ''false'' (JBool False) (c # cs)
          else if c = CHR ''n'' then literal ''null'' JNull (c # cs)
          else read_number (c # cs))"
| "read_elements 0 done s = None"
| "read_elements (Suc n) done s =
     (case read_value n s of
        None \<Rightarrow> None
      | Some (v, rest) \<Rightarrow>
          (case skip_space rest of
             [] \<Rightarrow> None
           | c # cs \<Rightarrow>
               if c = CHR '','' then read_elements n (done @ [v]) cs
               else if c = CHR '']'' then Some (JArr (done @ [v]), cs)
               else None))"
| "read_members 0 done s = None"
| "read_members (Suc n) done s =
     (case skip_space s of
        [] \<Rightarrow> None
      | q # qs \<Rightarrow>
          if q \<noteq> CHR 0x22 then None
          else
            (case read_string qs of
               None \<Rightarrow> None
             | Some (name, rest) \<Rightarrow>
                 (case skip_space rest of
                    [] \<Rightarrow> None
                  | c # cs \<Rightarrow>
                      if c \<noteq> CHR '':'' then None
                      else
                        (case read_value n cs of
                           None \<Rightarrow> None
                         | Some (v, rest') \<Rightarrow>
                             (case skip_space rest' of
                                [] \<Rightarrow> None
                              | d # ds \<Rightarrow>
                                  if d = CHR '','' then read_members n (put name v done) ds
                                  else if d = CHR ''}'' then Some (JObj (put name v done), ds)
                                  else None)))))"

definition json_read :: "string \<Rightarrow> json option" where
  "json_read s =
     (case read_value (Suc (length s + length s)) s of
        None \<Rightarrow> None
      | Some (v, rest) \<Rightarrow> if skip_space rest = [] then Some v else None)"

text \<open>The runtime of the examples: the reader above for \<^verbatim>\<open>JSON.parse\<close>. No example
  reaches a message of the engine's own errors, which is left empty.\<close>

definition example_runtime :: runtime where
  "example_runtime = \<lparr>JSON_parse = json_read, engine_message = (\<lambda>e. [])\<rparr>"

text \<open>An upstream that rejects the context reset with the given message.\<close>

definition refusing :: "string \<Rightarrow> upstream" where
  "refusing err =
     \<lparr>clear_context = (\<lambda>auth payload. Inl err), completions = (\<lambda>auth payload. Inr [End])\<rparr>"

text \<open>The request of the README, with the given model.\<close>

definition hello_body :: "string \<Rightarrow> json" where
  "hello_body m = JObj [(''model'', JStr m), (''request'', JObj [(''message'', JStr ''Hello, how are you?'')])]"

text \<open>The text \<^verbatim>\<open>{"choices":[{"delta":{"content":"s"}}]}\<close> of that event, for a text
  \<open>s\<close> that needs no escape.\<close>

definition delta_json :: "string \<Rightarrow> string" where
  \<open>delta_json s = ''{"choices":[{"delta":{"content":"'' @ s @ ''"}}]}''\<close>

section \<open>The stream accumulator\<close>

lemma on_line_append: "on_line rt acc l = acc @ on_line rt [] l"
  by (simp add: on_line_def try_line_def split: option.splits sum.splits)

lemma foldl_on_line: "foldl (on_line rt) acc ls = acc @ concat (map (line_delta rt) ls)"
proof (induction ls arbitrary: acc)
  case Nil
  then show ?case by simp
next
  case (Cons l ls)
  have "foldl (on_line rt) acc (l # ls) = foldl (on_line rt) (acc @ on_line rt [] l) ls"
    using on_line_append [of rt acc l] by simp
  then show ?case by (simp add: Cons.IH line_delta_def)
qed

lemma on_data_lines: "on_data rt acc chunk = acc @ concat (map (line_delta rt) (split_lines chunk))"
  by (simp add: on_data_def foldl_on_line)

lemma on_data_append: "on_data rt acc chunk = acc @ on_data rt [] chunk"
  by (simp add: on_data_lines)

lemma on_event_Data:
  "on_event rt st (Data chunk) = st\<lparr>combinedResponse := combinedResponse st @ on_data rt [] chunk\<rparr>"
  using on_data_append [of rt "combinedResponse st" chunk] by (simp add: on_event_def)

lemma on_event_End:
  "on_event rt st End = (if settled st = Pending then st\<lparr>settled := Resolved (combinedResponse st)\<rparr> else st)"
  by (simp add: on_event_def)

lemma on_event_Error:
  "on_event rt st (Error err) = (if settled st = Pending then st\<lparr>settled := Rejected (UpstreamError err)\<rparr> else st)"
  by (simp add: on_event_def)

lemma foldl_data:
  "foldl (on_event rt) st (map Data chunks) =
     st\<lparr>combinedResponse := combinedResponse st @ concat (map (on_data rt []) chunks)\<rparr>"
proof (induction chunks arbitrary: st)
  case Nil
  then show ?case by simp
next
  case (Cons c cs)
  show ?case
    by (simp add: Cons.IH on_event_Data)
qed

lemma settled_stays:
  "settled st \<noteq> Pending \<Longrightarrow> settled (foldl (on_event rt) st evs) = settled st"
proof (induction evs arbitrary: st)
  case Nil
  then show ?case by simp
next
  case (Cons ev evs)
  have "settled (on_event rt st ev) = settled st"
    using Cons.prems by (cases ev) (simp_all add: on_event_Data on_event_End on_event_Error)
  with Cons show ?case by simp
qed

lemma drain_end:
  "drain rt (map Data chunks @ End # rest) = Resolved (concat (map (on_data rt []) chunks))"
  by (simp add: drain_def foldl_data on_event_End settled_stays)

lemma drain_error:
  "drain rt (map Data chunks @ Error err # rest) = Rejected (UpstreamError err)"
  by (simp add: drain_def foldl_data on_event_Error settled_stays)

lemma drain_silent: "drain rt (map Data chunks) = Pending"
  by (simp add: drain_def foldl_data)

lemma cons_first_append: "ls \<noteq> [] \<Longrightarrow> cons_first c (ls @ ms) = cons_first c ls @ ms"
  by (cases ls) auto

lemma cons_first_nonempty: "cons_first c ls \<noteq> []"
  by (cases ls) auto

lemma split_lines_nonempty: "split_lines s \<noteq> []"
  by (induction s rule: split_lines.induct) (auto simp: cons_first_nonempty)

lemma line_delta_empty: "line_delta rt [] = []"
  by (simp add: line_delta_def on_line_def trim_def startsWith_def)

lemma cons_first_butlast:
  "butlast ls \<noteq> [] \<Longrightarrow>
     butlast (cons_first c ls) = cons_first c (butlast ls) \<and> last (cons_first c ls) = last ls"
  by (cases ls) (auto split: if_splits)

lemma split_lines_whole:
  "s \<noteq> [] \<Longrightarrow> last s = LF \<Longrightarrow>
     split_lines (s @ t) = butlast (split_lines s) @ split_lines t \<and>
     last (split_lines s) = [] \<and> butlast (split_lines s) \<noteq> []"
proof (induction s rule: split_lines.induct)
  case 1
  then show ?case by simp
next
  case (2 c)
  then show ?case by (cases t) auto
next
  case (3 c d cs)
  have tail: "last (d # cs) = LF" using "3.prems" by simp
  show ?case
  proof (cases "c = LF")
    case True
    with "3.IH"(1) tail show ?thesis by (simp add: split_lines_nonempty)
  next
    case False
    show ?thesis
    proof (cases "c = CR \<and> d = LF")
      case True
      show ?thesis
      proof (cases cs)
        case Nil
        with True False show ?thesis by simp
      next
        case (Cons e es)
        then have "cs \<noteq> []" "last cs = LF" using tail by auto
        with "3.IH"(2) False True show ?thesis by (simp add: split_lines_nonempty)
      qed
    next
      case no_crlf: False
      from "3.IH"(3) [OF False no_crlf] tail
      have ih: "split_lines ((d # cs) @ t) = butlast (split_lines (d # cs)) @ split_lines t"
        "last (split_lines (d # cs)) = []" "butlast (split_lines (d # cs)) \<noteq> []"
        by simp_all
      have "split_lines ((c # d # cs) @ t) = cons_first c (split_lines ((d # cs) @ t))"
        using False no_crlf by auto
      also have "\<dots> = cons_first c (butlast (split_lines (d # cs))) @ split_lines t"
        using ih(1) ih(3) by (simp add: cons_first_append)
      finally have a: "split_lines ((c # d # cs) @ t) =
          butlast (split_lines (c # d # cs)) @ split_lines t"
        using False no_crlf cons_first_butlast [OF ih(3), of c] by auto
      have b: "last (split_lines (c # d # cs)) = []"
        using False no_crlf cons_first_butlast [OF ih(3), of c] ih(2) by auto
      have c: "butlast (split_lines (c # d # cs)) \<noteq> []"
        using False no_crlf cons_first_butlast [OF ih(3), of c] by (auto simp: cons_first_nonempty)
      from a b c show ?thesis by blast
    qed
  qed
qed

lemma lines_of_whole:
  assumes "whole_lines s"
  shows "concat (map (line_delta rt) (split_lines (s @ t))) =
         concat (map (line_delta rt) (split_lines s)) @ concat (map (line_delta rt) (split_lines t))"
proof (cases "s = []")
  case True
  then show ?thesis by (simp add: line_delta_empty)
next
  case False
  with assms have l: "last s = LF" by (simp add: whole_lines_def)
  from split_lines_whole [OF False l, of t]
  have a: "split_lines (s @ t) = butlast (split_lines s) @ split_lines t"
    and b: "last (split_lines s) = []" by simp_all
  obtain ls where ls: "split_lines s = ls @ [[]]"
    using b split_lines_nonempty [of s] by (metis append_butlast_last_id)
  show ?thesis using a by (simp add: ls line_delta_empty)
qed

lemma whole_stream:
  "\<forall>c \<in> set chunks. whole_lines c \<Longrightarrow>
     concat (map (line_delta rt) (split_lines (concat chunks))) =
     concat (map (on_data rt []) chunks)"
proof (induction chunks)
  case Nil
  then show ?case by (simp add: line_delta_empty)
next
  case (Cons c cs)
  then show ?case by (simp add: lines_of_whole on_data_lines)
qed

section \<open>The handler: validation\<close>

lemma member_body:
  "req_body \<noteq> JNull \<Longrightarrow>
     member (Some req_body) name = Inr (case req_body of JObj fs \<Rightarrow> map_of fs name | _ \<Rightarrow> None)"
  by (cases req_body) simp_all

lemma message_of_field:
  "message_of r = Inr (case r of Some (JObj rs) \<Rightarrow> map_of rs ''message'' | _ \<Rightarrow> None)"
proof (cases r)
  case None
  then show ?thesis by (simp add: message_of_def)
next
  case (Some v)
  then show ?thesis by (cases v) (simp_all add: message_of_def)
qed

lemma message_of_body:
  "req_body \<noteq> JNull \<Longrightarrow>
     message_of (case req_body of JObj fs \<Rightarrow> map_of fs ''request'' | _ \<Rightarrow> None) =
     Inr (request_message req_body)"
  by (cases req_body) (simp_all add: message_of_field request_message_def)

lemma validation_set:
  assumes "key \<noteq> []" and "req_body \<noteq> JNull"
  shows "validation rt (Some key) req_body =
     (let model = (case req_body of JObj fs \<Rightarrow> map_of fs ''model'' | _ \<Rightarrow> None);
          message = request_message req_body
      in if \<not> truthy message then
           Inl \<lparr>reply = Some \<lparr>status = 400, body = error_json ''Message is required.''\<rparr>,
                calls = []\<rparr>
         else if truthy model \<and> \<not> array_includes VALID_MODELS model then
           (case template model of
              None \<Rightarrow> Inl (failed rt TypeError [])
            | Some shown \<Rightarrow>
                Inl \<lparr>reply = Some \<lparr>status = 400,
                       body = error_json
                         (''Invalid model. Valid models are: '' @ join '', '' VALID_MODELS)\<rparr>,
                     calls = []\<rparr>)
         else Inr (key, message, model))"
  using assms by (simp add: validation_def member_body message_of_body Let_def)

lemma validation_unset:
  "DEEPSEEK = None \<or> DEEPSEEK = Some [] \<Longrightarrow>
   validation rt DEEPSEEK req_body =
     Inl \<lparr>reply = Some \<lparr>status = 500,
            body = error_json ''DeepSeek API key is not provided in environment variables.''\<rparr>,
          calls = []\<rparr>"
  by (auto simp add: validation_def no_key_def)

lemma validation_null:
  "key \<noteq> [] \<Longrightarrow> validation rt (Some key) JNull = Inl (failed rt TypeError [])"
  by (simp add: validation_def)

lemma validation_early:
  "validation rt DEEPSEEK req_body = Inl early \<Longrightarrow> reply early \<noteq> None \<and> calls early = []"
  by (auto simp add: validation_def failed_def no_key_def split: if_splits sum.splits option.splits)

lemma validation_passed:
  assumes "validation rt DEEPSEEK req_body = Inr (key, message, model)"
  shows "DEEPSEEK = Some key \<and> key \<noteq> [] \<and> req_body \<noteq> JNull \<and>
         message = request_message req_body \<and> truthy message \<and>
         model = (case req_body of JObj fs \<Rightarrow> map_of fs ''model'' | _ \<Rightarrow> None) \<and>
         (truthy model \<longrightarrow> array_includes VALID_MODELS model)"
proof -
  from assms obtain k where k: "DEEPSEEK = Some k" "k \<noteq> []"
    by (cases DEEPSEEK) (auto simp add: validation_def split: if_splits)
  have nn: "req_body \<noteq> JNull"
    using assms k by (auto simp add: validation_null)
  from assms show ?thesis
    unfolding k(1) validation_set [OF k(2) nn] Let_def
    using k nn by (auto split: if_splits option.splits)
qed

text \<open>
  C6. When \<^verbatim>\<open>process.env.DEEPSEEK\<close> is unset (or empty), the handler answers 500 with the
  fixed message for every runtime, upstream and request body, and makes no upstream
  request. The value is read at each request: with the same body and upstream, a request
  made while the key is set gets another answer.
\<close>

theorem missing_credential_always_500:
  "handler rt None up req_body =
     \<lparr>reply = Some \<lparr>status = 500,
        body = JObj [(''error'', JStr ''DeepSeek API key is not provided in environment variables.'')]\<rparr>,
      calls = []\<rparr>
   \<and> handler rt (Some []) up req_body = handler rt None up req_body
   \<and> (key \<noteq> [] \<longrightarrow> reply (handler rt (Some key) up req_body) \<noteq> reply (handler rt None up req_body))"
proof -
  have a: "handler rt None up req_body =
     \<lparr>reply = Some \<lparr>status = 500,
        body = JObj [(''error'', JStr ''DeepSeek API key is not provided in environment variables.'')]\<rparr>,
      calls = []\<rparr>"
    by (simp add: handler_def validation_unset error_json_def)
  have b: "handler rt (Some []) up req_body = handler rt None up req_body"
    by (simp add: handler_def validation_unset)
  have c: "reply (handler rt (Some key) up req_body) \<noteq> reply (handler rt None up req_body)"
    if key: "key \<noteq> []"
  proof (cases "req_body = JNull")
    case True
    show ?thesis
      unfolding a using key True
      by (simp add: handler_def validation_null failed_def error_json_def)
  next
    case False
    show ?thesis
      unfolding a
      by (auto simp add: handler_def validation_set [OF key False] Let_def error_json_def
          after_validation_def failed_def
          split: prod.splits option.splits promise.splits)
  qed
  from a b c show ?thesis by blast
qed

theorem missing_credential_always_500_witness:
  "''sk'' \<noteq> [] \<and>
   reply (handler example_runtime (Some ''sk'') (streaming [End]) (JObj [])) \<noteq>
   reply (handler example_runtime None (streaming [End]) (JObj []))"
proof -
  have key: "''sk'' \<noteq> []" by simp
  from missing_credential_always_500 [of example_runtime "streaming [End]" "JObj []" "''sk''"] key
  show ?thesis by blast
qed

text \<open>
  C4. With the key set, a request whose body has no \<^verbatim>\<open>request.message\<close>, or has the empty
  text there, is answered 400 with \<^verbatim>\<open>{error: 'Message is required.'}\<close>, and neither
  upstream request is made.
\<close>

theorem missing_message_400:
  assumes "key \<noteq> []" and "req_body \<noteq> JNull"
    and "request_message req_body = None \<or> request_message req_body = Some (JStr [])"
  shows "handler rt (Some key) up req_body =
     \<lparr>reply = Some \<lparr>status = 400, body = JObj [(''error'', JStr ''Message is required.'')]\<rparr>,
      calls = []\<rparr>"
proof -
  from assms(3) have "\<not> truthy (request_message req_body)" by auto
  then show ?thesis
    by (simp add: handler_def validation_set [OF assms(1,2)] Let_def error_json_def)
qed

theorem missing_message_400_witness:
  "''sk'' \<noteq> [] \<and>
   JObj [(''request'', JObj [(''message'', JStr [])])] \<noteq> JNull \<and>
   request_message (JObj [(''request'', JObj [(''message'', JStr [])])]) = Some (JStr []) \<and>
   handler example_runtime (Some ''sk'') (streaming [End]) (JObj [(''request'', JObj [(''message'', JStr [])])]) =
     \<lparr>reply = Some \<lparr>status = 400, body = JObj [(''error'', JStr ''Message is required.'')]\<rparr>,
      calls = []\<rparr>"
  using missing_message_400
    [of "''sk''" "JObj [(''request'', JObj [(''message'', JStr [])])]" example_runtime "streaming [End]"]
  by (simp add: request_message_def)

lemma not_object_no_message: "\<not> request_is_object req_body \<Longrightarrow> request_message req_body = None"
  by (auto simp add: request_is_object_def request_message_def split: json.splits option.splits)

text \<open>
  C10. When the \<^verbatim>\<open>request\<close> field of the body is absent or not an object, the handler
  still answers and makes no upstream request, whatever the key and the body; with the
  key set (and a body that \<^verbatim>\<open>express.json()\<close> can deliver) the answer is the 400 of the
  missing message.
\<close>

theorem non_object_request_400:
  assumes "\<not> request_is_object req_body"
  shows "(key \<noteq> [] \<and> req_body \<noteq> JNull \<longrightarrow>
           handler rt (Some key) up req_body =
             \<lparr>reply = Some \<lparr>status = 400, body = JObj [(''error'', JStr ''Message is required.'')]\<rparr>,
              calls = []\<rparr>)
       \<and> reply (handler rt DEEPSEEK up req_body) \<noteq> None
       \<and> calls (handler rt DEEPSEEK up req_body) = []"
proof -
  have m: "request_message req_body = None"
    using assms by (rule not_object_no_message)
  have a: "handler rt (Some key) up req_body =
             \<lparr>reply = Some \<lparr>status = 400, body = JObj [(''error'', JStr ''Message is required.'')]\<rparr>,
              calls = []\<rparr>" if "key \<noteq> []" "req_body \<noteq> JNull"
    by (simp add: handler_def validation_set [OF that] Let_def error_json_def m)
  have "\<exists>early. validation rt DEEPSEEK req_body = Inl early"
  proof (cases "validation rt DEEPSEEK req_body")
    case (Inl early)
    then show ?thesis by blast
  next
    case (Inr passed)
    then obtain k msg mdl where "validation rt DEEPSEEK req_body = Inr (k, msg, mdl)"
      by (cases passed) auto
    from validation_passed [OF this] m show ?thesis by auto
  qed
  then obtain early where e: "validation rt DEEPSEEK req_body = Inl early" by blast
  have b: "reply (handler rt DEEPSEEK up req_body) \<noteq> None \<and> calls (handler rt DEEPSEEK up req_body) = []"
    using validation_early [OF e] by (simp add: handler_def e)
  from a b show ?thesis by blast
qed

theorem non_object_request_400_witness:
  "\<not> request_is_object (JObj [(''request'', JStr ''hi'')]) \<and>
   ''sk'' \<noteq> [] \<and>
   JObj [(''request'', JStr ''hi'')] \<noteq> JNull \<and>
   handler example_runtime (Some ''sk'') (streaming [End]) (JObj [(''request'', JStr ''hi'')]) =
     \<lparr>reply = Some \<lparr>status = 400, body = JObj [(''error'', JStr ''Message is required.'')]\<rparr>,
      calls = []\<rparr>"
  using non_object_request_400
    [of "JObj [(''request'', JStr ''hi'')]" "''sk''" example_runtime "streaming [End]"]
  by (simp add: request_is_object_def)

section \<open>The handler: the two upstream calls\<close>

lemma handler_passed:
  "validation rt DEEPSEEK req_body = Inr (key, message, model) \<Longrightarrow>
     handler rt DEEPSEEK up req_body = after_validation rt up key message model"
  by (simp add: handler_def)

lemma after_clear_failed:
  "clear_context up (bearer key) clearPayload = Inl err \<Longrightarrow>
     after_validation rt up key message model =
       \<lparr>reply = Some \<lparr>status = 500,
          body = JObj [(''error'', JStr (''Failed to process the request. Details: '' @ err))]\<rparr>,
        calls = [ClearContext (bearer key) clearPayload]\<rparr>"
  by (simp add: after_validation_def clearChatContext_def failed_def error_json_def error_message_def)

lemma after_clear_ok:
  "clear_context up (bearer key) clearPayload = Inr data \<Longrightarrow>
     after_validation rt up key message model =
       (case sendMessage rt up key message model of
          (Pending, cs') \<Rightarrow> \<lparr>reply = None, calls = ClearContext (bearer key) clearPayload # cs'\<rparr>
        | (Rejected e, cs') \<Rightarrow> failed rt e (ClearContext (bearer key) clearPayload # cs')
        | (Resolved userResponse, cs') \<Rightarrow>
            \<lparr>reply = Some \<lparr>status = 200, body = JObj [(''response'', JStr userResponse)]\<rparr>,
             calls = ClearContext (bearer key) clearPayload # cs'\<rparr>)"
  by (simp add: after_validation_def clearChatContext_def split: prod.splits promise.splits)

lemma sendMessage_rejected_post:
  "completions up (bearer key) (userPayload message model) = Inl err \<Longrightarrow>
     sendMessage rt up key message model =
       (Rejected (UpstreamError err), [Completions (bearer key) (userPayload message model)])"
  by (simp add: sendMessage_def)

lemma sendMessage_stream:
  "completions up (bearer key) (userPayload message model) = Inr events \<Longrightarrow>
     sendMessage rt up key message model =
       (drain rt events, [Completions (bearer key) (userPayload message model)])"
  by (simp add: sendMessage_def)

lemma failed_upstream:
  "failed rt (UpstreamError err) cs =
     \<lparr>reply = Some \<lparr>status = 500,
        body = JObj [(''error'', JStr (''Failed to process the request. Details: '' @ err))]\<rparr>,
      calls = cs\<rparr>"
  by (simp add: failed_def error_json_def error_message_def)

text \<open>
  C5. For a request that passes validation, when the context reset fails (axios rejects,
  for a transport error or a status outside 2xx), the handler answers 500 with the
  error's message after \<^verbatim>\<open>Failed to process the request. Details: \<close>, and the only
  upstream request made is the context reset: \<^verbatim>\<open>sendMessage\<close> is not called.
\<close>

theorem context_reset_failure_500:
  assumes "validation rt DEEPSEEK req_body = Inr (key, message, model)"
    and "clear_context up (bearer key) clearPayload = Inl err"
  shows "handler rt DEEPSEEK up req_body =
     \<lparr>reply = Some \<lparr>status = 500,
        body = JObj [(''error'', JStr (''Failed to process the request. Details: '' @ err))]\<rparr>,
      calls = [ClearContext (bearer key) clearPayload]\<rparr>"
  using assms by (simp add: handler_passed after_clear_failed)

lemma hello_body_passes:
  "m = [] \<or> m \<in> set VALID_MODELS \<Longrightarrow>
   validation rt (Some ''sk'') (hello_body m) = Inr (''sk'', Some (JStr ''Hello, how are you?''), Some (JStr m))"
  by (auto simp add: validation_def hello_body_def message_of_def)

theorem context_reset_failure_500_witness:
  "validation example_runtime (Some ''sk'') (hello_body ''deepseek_chat'') =
     Inr (''sk'', Some (JStr ''Hello, how are you?''), Some (JStr ''deepseek_chat'')) \<and>
   clear_context (refusing ''Request failed with status code 500'') (bearer ''sk'') clearPayload =
     Inl ''Request failed with status code 500'' \<and>
   handler example_runtime (Some ''sk'') (refusing ''Request failed with status code 500'') (hello_body ''deepseek_chat'') =
     \<lparr>reply = Some \<lparr>status = 500,
        body = JObj [(''error'',
          JStr ''Failed to process the request. Details: Request failed with status code 500'')]\<rparr>,
      calls = [ClearContext ''Bearer sk''
        (JObj [(''model_class'', JStr ''deepseek_code''), (''append_welcome_message'', JBool False)])]\<rparr>"
proof -
  have v: "validation example_runtime (Some ''sk'') (hello_body ''deepseek_chat'') =
     Inr (''sk'', Some (JStr ''Hello, how are you?''), Some (JStr ''deepseek_chat''))"
    by (rule hello_body_passes) (simp add: VALID_MODELS_def)
  have c: "clear_context (refusing ''Request failed with status code 500'') (bearer ''sk'') clearPayload =
     Inl ''Request failed with status code 500''"
    by (simp add: refusing_def)
  from context_reset_failure_500 [OF v c] v c show ?thesis
    by (simp add: bearer_def clearPayload_def DEEPSEEK_MODEL_CLASS_def)
qed

lemma events_shape:
  "(\<exists>chunks. events = map Data chunks) \<or>
   (\<exists>chunks later. events = map Data chunks @ End # later) \<or>
   (\<exists>chunks err later. events = map Data chunks @ Error err # later)"
proof (induction events)
  case Nil
  have "[] = map Data []" by simp
  then have "\<exists>cs. [] = map Data cs" ..
  then show ?case by (rule disjI1)
next
  case (Cons ev events)
  show ?case
  proof (cases ev)
    case (Data chunk)
    from Cons.IH show ?thesis
    proof (elim disjE exE)
      fix chunks assume "events = map Data chunks"
      then have "ev # events = map Data (chunk # chunks)" using Data by simp
      then have "\<exists>cs. ev # events = map Data cs" ..
      then show ?thesis by (rule disjI1)
    next
      fix chunks later assume "events = map Data chunks @ End # later"
      then have "ev # events = map Data (chunk # chunks) @ End # later" using Data by simp
      then have "\<exists>cs rest. ev # events = map Data cs @ End # rest" by (intro exI)
      then show ?thesis by (intro disjI2 disjI1)
    next
      fix chunks err later assume "events = map Data chunks @ Error err # later"
      then have "ev # events = map Data (chunk # chunks) @ Error err # later" using Data by simp
      then have "\<exists>cs e rest. ev # events = map Data cs @ Error e # rest" by (intro exI)
      then show ?thesis by (intro disjI2)
    qed
  next
    case End
    then have "ev # events = map Data [] @ End # events" by simp
    then have "\<exists>cs rest. ev # events = map Data cs @ End # rest" by (intro exI)
    then show ?thesis by (intro disjI2 disjI1)
  next
    case (Error err)
    then have "ev # events = map Data [] @ Error err # events" by simp
    then have "\<exists>cs e rest. ev # events = map Data cs @ Error e # rest" by (intro exI)
    then show ?thesis by (intro disjI2)
  qed
qed

lemma after_validation_reply:
  "reply (after_validation rt up key message model) =
     (case clear_context up (bearer key) clearPayload of
        Inl err \<Rightarrow> Some \<lparr>status = 500,
          body = JObj [(''error'', JStr (''Failed to process the request. Details: '' @ err))]\<rparr>
      | Inr data \<Rightarrow>
          (case completions up (bearer key) (userPayload message model) of
             Inl err \<Rightarrow> Some \<lparr>status = 500,
               body = JObj [(''error'', JStr (''Failed to process the request. Details: '' @ err))]\<rparr>
           | Inr events \<Rightarrow>
               (case drain rt events of
                  Pending \<Rightarrow> None
                | Rejected e \<Rightarrow> Some \<lparr>status = 500,
                    body = JObj [(''error'',
                      JStr (''Failed to process the request. Details: '' @ error_message rt e))]\<rparr>
                | Resolved userResponse \<Rightarrow>
                    Some \<lparr>status = 200, body = JObj [(''response'', JStr userResponse)]\<rparr>)))"
  by (simp add: after_clear_failed after_clear_ok sendMessage_rejected_post sendMessage_stream
      failed_upstream failed_def error_json_def error_message_def
      split: sum.splits promise.splits)

lemma after_validation_calls:
  "calls (after_validation rt up key message model) =
     (case clear_context up (bearer key) clearPayload of
        Inl err \<Rightarrow> [ClearContext (bearer key) clearPayload]
      | Inr data \<Rightarrow>
          [ClearContext (bearer key) clearPayload,
           Completions (bearer key) (userPayload message model)])"
  by (simp add: after_clear_failed after_clear_ok sendMessage_def failed_def
      split: sum.splits promise.splits)

text \<open>
  C8. For a request that passes validation: when the context reset is rejected, when the
  completions request is rejected, or when the stream reports an error before its end, the
  reply is 500 with the error's message, whatever chunks arrived before. A 200 is sent
  only when the stream ends, and then with the text accumulated from all chunks before the
  end. So the reply, if any, is such a 500 or that full 200.
\<close>

theorem upstream_failure_no_partial_output:
  assumes "validation rt DEEPSEEK req_body = Inr (key, message, model)"
  shows "(clear_context up (bearer key) clearPayload = Inl err \<longrightarrow>
            reply (handler rt DEEPSEEK up req_body) =
              Some \<lparr>status = 500,
                body = JObj [(''error'', JStr (''Failed to process the request. Details: '' @ err))]\<rparr>)
       \<and> (clear_context up (bearer key) clearPayload = Inr data \<and>
          completions up (bearer key) (userPayload message model) = Inl err \<longrightarrow>
            reply (handler rt DEEPSEEK up req_body) =
              Some \<lparr>status = 500,
                body = JObj [(''error'', JStr (''Failed to process the request. Details: '' @ err))]\<rparr>)
       \<and> (clear_context up (bearer key) clearPayload = Inr data \<and>
          completions up (bearer key) (userPayload message model) =
            Inr (map Data chunks @ Error err # later) \<longrightarrow>
            reply (handler rt DEEPSEEK up req_body) =
              Some \<lparr>status = 500,
                body = JObj [(''error'', JStr (''Failed to process the request. Details: '' @ err))]\<rparr>)
       \<and> (clear_context up (bearer key) clearPayload = Inr data \<and>
          completions up (bearer key) (userPayload message model) =
            Inr (map Data chunks @ End # later) \<longrightarrow>
            reply (handler rt DEEPSEEK up req_body) =
              Some \<lparr>status = 200,
                body = JObj [(''response'', JStr (concat (map (on_data rt []) chunks)))]\<rparr>)
       \<and> (clear_context up (bearer key) clearPayload = Inr data \<and>
          completions up (bearer key) (userPayload message model) = Inr (map Data chunks) \<longrightarrow>
            reply (handler rt DEEPSEEK up req_body) = None)
       \<and> (reply (handler rt DEEPSEEK up req_body) = None
          \<or> (\<exists>e. reply (handler rt DEEPSEEK up req_body) =
                Some \<lparr>status = 500,
                  body = JObj [(''error'', JStr (''Failed to process the request. Details: '' @ e))]\<rparr>)
          \<or> (\<exists>all_chunks rest.
                completions up (bearer key) (userPayload message model) =
                  Inr (map Data all_chunks @ End # rest) \<and>
                reply (handler rt DEEPSEEK up req_body) =
                  Some \<lparr>status = 200,
                    body = JObj [(''response'', JStr (concat (map (on_data rt []) all_chunks)))]\<rparr>))"
proof -
  have h: "handler rt DEEPSEEK up req_body = after_validation rt up key message model"
    using assms by (rule handler_passed)
  have cases5: "(clear_context up (bearer key) clearPayload = Inl err \<longrightarrow>
            reply (handler rt DEEPSEEK up req_body) =
              Some \<lparr>status = 500,
                body = JObj [(''error'', JStr (''Failed to process the request. Details: '' @ err))]\<rparr>)
       \<and> (clear_context up (bearer key) clearPayload = Inr data \<and>
          completions up (bearer key) (userPayload message model) = Inl err \<longrightarrow>
            reply (handler rt DEEPSEEK up req_body) =
              Some \<lparr>status = 500,
                body = JObj [(''error'', JStr (''Failed to process the request. Details: '' @ err))]\<rparr>)
       \<and> (clear_context up (bearer key) clearPayload = Inr data \<and>
          completions up (bearer key) (userPayload message model) =
            Inr (map Data chunks @ Error err # later) \<longrightarrow>
            reply (handler rt DEEPSEEK up req_body) =
              Some \<lparr>status = 500,
                body = JObj [(''error'', JStr (''Failed to process the request. Details: '' @ err))]\<rparr>)
       \<and> (clear_context up (bearer key) clearPayload = Inr data \<and>
          completions up (bearer key) (userPayload message model) =
            Inr (map Data chunks @ End # later) \<longrightarrow>
            reply (handler rt DEEPSEEK up req_body) =
              Some \<lparr>status = 200,
                body = JObj [(''response'', JStr (concat (map (on_data rt []) chunks)))]\<rparr>)
       \<and> (clear_context up (bearer key) clearPayload = Inr data \<and>
          completions up (bearer key) (userPayload message model) = Inr (map Data chunks) \<longrightarrow>
            reply (handler rt DEEPSEEK up req_body) = None)"
    by (simp add: h after_validation_reply drain_end drain_error drain_silent error_message_def)
  have either: "reply (handler rt DEEPSEEK up req_body) = None
          \<or> (\<exists>e. reply (handler rt DEEPSEEK up req_body) =
                Some \<lparr>status = 500,
                  body = JObj [(''error'', JStr (''Failed to process the request. Details: '' @ e))]\<rparr>)
          \<or> (\<exists>all_chunks rest.
                completions up (bearer key) (userPayload message model) =
                  Inr (map Data all_chunks @ End # rest) \<and>
                reply (handler rt DEEPSEEK up req_body) =
                  Some \<lparr>status = 200,
                    body = JObj [(''response'', JStr (concat (map (on_data rt []) all_chunks)))]\<rparr>)"
  proof (cases "clear_context up (bearer key) clearPayload")
    case (Inl e)
    then show ?thesis by (simp add: h after_validation_reply)
  next
    case clear: (Inr d)
    show ?thesis
    proof (cases "completions up (bearer key) (userPayload message model)")
      case (Inl e)
      then show ?thesis by (simp add: h after_validation_reply clear)
    next
      case (Inr events)
      from events_shape [of events] show ?thesis
      proof (elim disjE exE)
        fix cs assume "events = map Data cs"
        then show ?thesis by (simp add: h after_validation_reply clear Inr drain_silent)
      next
        fix cs rest assume e: "events = map Data cs @ End # rest"
        have "completions up (bearer key) (userPayload message model) =
                  Inr (map Data cs @ End # rest) \<and>
                reply (handler rt DEEPSEEK up req_body) =
                  Some \<lparr>status = 200,
                    body = JObj [(''response'', JStr (concat (map (on_data rt []) cs)))]\<rparr>"
          by (simp add: h after_validation_reply clear Inr e drain_end)
        then have "\<exists>all_chunks rest.
                completions up (bearer key) (userPayload message model) =
                  Inr (map Data all_chunks @ End # rest) \<and>
                reply (handler rt DEEPSEEK up req_body) =
                  Some \<lparr>status = 200,
                    body = JObj [(''response'', JStr (concat (map (on_data rt []) all_chunks)))]\<rparr>"
          by (intro exI)
        then show ?thesis by (intro disjI2)
      next
        fix cs e rest assume "events = map Data cs @ Error e # rest"
        then show ?thesis
          by (simp add: h after_validation_reply clear Inr drain_error error_message_def)
      qed
    qed
  qed
  from cases5 either show ?thesis by blast
qed

lemma handler_calls:
  "calls (handler rt DEEPSEEK up req_body) =
     (case validation rt DEEPSEEK req_body of
        Inl early \<Rightarrow> []
      | Inr (key, message, model) \<Rightarrow>
          (case clear_context up (bearer key) clearPayload of
             Inl err \<Rightarrow> [ClearContext (bearer key) clearPayload]
           | Inr data \<Rightarrow>
               [ClearContext (bearer key) clearPayload,
                Completions (bearer key) (userPayload message model)]))"
  by (auto simp add: handler_def after_validation_calls validation_early split: sum.splits)

text \<open>
  C9. The payload of the context reset has \<^verbatim>\<open>model_class\<close> \<^verbatim>\<open>deepseek_code\<close>, and every
  context reset the handler makes carries that payload. A request that passes validation
  with model \<^verbatim>\<open>deepseek_chat\<close> starts with this reset, while its completions request
  carries \<^verbatim>\<open>deepseek_chat\<close>.
\<close>

theorem context_reset_uses_fixed_model_class:
  "member (Some clearPayload) ''model_class'' = Inr (Some (JStr ''deepseek_code''))
   \<and> (\<forall>c \<in> set (calls (handler rt DEEPSEEK up req_body)).
        \<forall>auth payload. c = ClearContext auth payload \<longrightarrow> payload = clearPayload)
   \<and> (validation rt DEEPSEEK req_body = Inr (key, message, Some (JStr ''deepseek_chat'')) \<longrightarrow>
        (\<exists>later. calls (handler rt DEEPSEEK up req_body) =
           ClearContext (bearer key) clearPayload # later))
   \<and> (validation rt DEEPSEEK req_body = Inr (key, message, Some (JStr ''deepseek_chat'')) \<and>
      clear_context up (bearer key) clearPayload = Inr data \<longrightarrow>
        calls (handler rt DEEPSEEK up req_body) =
          [ClearContext (bearer key) clearPayload,
           Completions (bearer key) (userPayload message (Some (JStr ''deepseek_chat'')))] \<and>
        member (Some (userPayload message (Some (JStr ''deepseek_chat'')))) ''model_class'' =
          Inr (Some (JStr ''deepseek_chat'')))"
proof -
  have a: "member (Some clearPayload) ''model_class'' = Inr (Some (JStr ''deepseek_code''))"
    by (simp add: clearPayload_def DEEPSEEK_MODEL_CLASS_def)
  have b: "\<forall>c \<in> set (calls (handler rt DEEPSEEK up req_body)).
        \<forall>auth payload. c = ClearContext auth payload \<longrightarrow> payload = clearPayload"
  proof (cases "validation rt DEEPSEEK req_body")
    case (Inl early)
    then show ?thesis by (simp add: handler_calls)
  next
    case (Inr passed)
    obtain k msg mdl where "passed = (k, msg, mdl)" by (cases passed) auto
    with Inr show ?thesis
      by (cases "clear_context up (bearer k) clearPayload") (simp_all add: handler_calls)
  qed
  have c: "\<exists>later. calls (handler rt DEEPSEEK up req_body) =
           ClearContext (bearer key) clearPayload # later"
    if "validation rt DEEPSEEK req_body = Inr (key, message, Some (JStr ''deepseek_chat''))"
    using that by (simp add: handler_calls split: sum.splits)
  have d: "calls (handler rt DEEPSEEK up req_body) =
          [ClearContext (bearer key) clearPayload,
           Completions (bearer key) (userPayload message (Some (JStr ''deepseek_chat'')))] \<and>
        member (Some (userPayload message (Some (JStr ''deepseek_chat'')))) ''model_class'' =
          Inr (Some (JStr ''deepseek_chat''))"
    if "validation rt DEEPSEEK req_body = Inr (key, message, Some (JStr ''deepseek_chat''))"
      and "clear_context up (bearer key) clearPayload = Inr data"
    using that by (cases message) (simp_all add: handler_calls userPayload_def or_else_def)
  from a b c d show ?thesis by blast
qed

text \<open>
  C7, amended. With the key set, a request whose body has a truthy \<^verbatim>\<open>model\<close> (not
  \<^verbatim>\<open>null\<close>, \<^verbatim>\<open>false\<close>, zero or the empty text) that is neither of the two allowed texts,
  and that has a text as a value in a template literal (every text, number and boolean
  has one, and so has an object or array with no own \<^verbatim>\<open>toString\<close> property inside), is
  answered 400 with an error object and no upstream request is made; the error is the one
  of the invalid model when the message is there.
\<close>

theorem invalid_model_400:
  assumes "key \<noteq> []" and "req_body = JObj fs" and "map_of fs ''model'' = Some m"
    and "truthy (Some m)" and "m \<noteq> JStr ''deepseek_code''" and "m \<noteq> JStr ''deepseek_chat''"
    and "to_text m = Some shown"
  shows "calls (handler rt (Some key) up req_body) = []
     \<and> (reply (handler rt (Some key) up req_body) =
          Some \<lparr>status = 400, body = JObj [(''error'', JStr ''Message is required.'')]\<rparr>
        \<or> reply (handler rt (Some key) up req_body) =
          Some \<lparr>status = 400, body = JObj [(''error'',
            JStr ''Invalid model. Valid models are: deepseek_code, deepseek_chat'')]\<rparr>)
     \<and> (truthy (request_message req_body) \<longrightarrow>
          reply (handler rt (Some key) up req_body) =
            Some \<lparr>status = 400, body = JObj [(''error'',
              JStr ''Invalid model. Valid models are: deepseek_code, deepseek_chat'')]\<rparr>)"
proof -
  have nn: "req_body \<noteq> JNull" using assms(2) by simp
  have inc: "\<not> array_includes VALID_MODELS (Some m)"
    using assms(5,6) by (cases m) (auto simp add: VALID_MODELS_def)
  have v: "validation rt (Some key) (JObj fs) =
      (if \<not> truthy (request_message (JObj fs)) then
         Inl \<lparr>reply = Some \<lparr>status = 400, body = error_json ''Message is required.''\<rparr>,
              calls = []\<rparr>
       else
         Inl \<lparr>reply = Some \<lparr>status = 400,
                body = error_json
                  (''Invalid model. Valid models are: '' @ join '', '' VALID_MODELS)\<rparr>,
              calls = []\<rparr>)"
    using validation_set [of key "JObj fs" rt] assms(1,3,4,7) inc by (simp add: Let_def)
  show ?thesis
    unfolding assms(2)
    by (simp add: handler_def v error_json_def VALID_MODELS_def)
qed

text \<open>
  C7 as stated fails: the body \<^verbatim>\<open>{"model": "", "request": {"message": "Hi"}}\<close> has a
  \<^verbatim>\<open>model\<close> that is not in the list, yet both upstream requests are made, the completions
  one with the default model class, and the answer is 200.
\<close>

theorem empty_model_reaches_upstream:
  "map_of [(''model'', JStr []), (''request'', JObj [(''message'', JStr ''Hi'')])] ''model'' = Some (JStr [])
   \<and> [] \<notin> set VALID_MODELS
   \<and> handler example_runtime (Some ''sk'') (streaming [End])
       (JObj [(''model'', JStr []), (''request'', JObj [(''message'', JStr ''Hi'')])]) =
       \<lparr>reply = Some \<lparr>status = 200, body = JObj [(''response'', JStr [])]\<rparr>,
        calls =
          [ClearContext ''Bearer sk''
             (JObj [(''model_class'', JStr ''deepseek_code''), (''append_welcome_message'', JBool False)]),
           Completions ''Bearer sk''
             (JObj [(''message'', JStr ''Hi''), (''stream'', JBool True), (''model_preference'', JNull),
                    (''model_class'', JStr ''deepseek_code''), (''temperature'', JNum True ''1'')])]\<rparr>"
  by (simp add: handler_def validation_def message_of_def after_validation_def clearChatContext_def
      sendMessage_def streaming_def drain_def on_event_def bearer_def clearPayload_def userPayload_def
      or_else_def DEEPSEEK_MODEL_CLASS_def VALID_MODELS_def)


theorem invalid_model_400_witness:
  "''sk'' \<noteq> [] \<and>
   map_of [(''model'', JStr ''gpt-4''), (''request'', JObj [(''message'', JStr ''Hi'')])] ''model'' =
     Some (JStr ''gpt-4'') \<and>
   truthy (Some (JStr ''gpt-4'')) \<and>
   to_text (JStr ''gpt-4'') = Some ''gpt-4'' \<and>
   calls (handler example_runtime (Some ''sk'') (streaming [End])
     (JObj [(''model'', JStr ''gpt-4''), (''request'', JObj [(''message'', JStr ''Hi'')])])) = [] \<and>
   reply (handler example_runtime (Some ''sk'') (streaming [End])
     (JObj [(''model'', JStr ''gpt-4''), (''request'', JObj [(''message'', JStr ''Hi'')])])) =
     Some \<lparr>status = 400, body = JObj [(''error'',
       JStr ''Invalid model. Valid models are: deepseek_code, deepseek_chat'')]\<rparr>"
  using invalid_model_400
    [where key = "''sk''"
       and req_body = "JObj [(''model'', JStr ''gpt-4''), (''request'', JObj [(''message'', JStr ''Hi'')])]"
       and fs = "[(''model'', JStr ''gpt-4''), (''request'', JObj [(''message'', JStr ''Hi'')])]"
       and m = "JStr ''gpt-4''" and shown = "''gpt-4''"
       and rt = example_runtime and up = "streaming [End]"]
  by (simp add: request_message_def)

lemma unprintable_model_500:
  "handler rt (Some ''sk'') up
     (JObj [(''model'', JObj [(''toString'', JNum True ''1'')]),
            (''request'', JObj [(''message'', JStr ''Hi'')])]) =
     failed rt TypeError []"
  by (simp add: handler_def validation_def message_of_def VALID_MODELS_def)

theorem upstream_failure_no_partial_output_witness:
  \<open>validation example_runtime (Some ''sk'') (hello_body ''deepseek_chat'') =
     Inr (''sk'', Some (JStr ''Hello, how are you?''), Some (JStr ''deepseek_chat'')) \<and>
   on_data example_runtime [] (''data: {"choices":[{"delta":{"content":"Hel"}}]}'' @ [LF]) = ''Hel'' \<and>
   reply (handler example_runtime (Some ''sk'')
     (streaming [Data (''data: {"choices":[{"delta":{"content":"Hel"}}]}'' @ [LF]), Error ''aborted''])
     (hello_body ''deepseek_chat'')) =
     Some \<lparr>status = 500,
       body = JObj [(''error'', JStr ''Failed to process the request. Details: aborted'')]\<rparr>\<close>
proof -
  have v: "validation example_runtime (Some ''sk'') (hello_body ''deepseek_chat'') =
     Inr (''sk'', Some (JStr ''Hello, how are you?''), Some (JStr ''deepseek_chat''))"
    by (rule hello_body_passes) (simp add: VALID_MODELS_def)
  have d: \<open>on_data example_runtime [] (''data: {"choices":[{"delta":{"content":"Hel"}}]}'' @ [LF]) = ''Hel''\<close>
    by (simp add: on_data_def on_line_def try_line_def trim_def is_space_def startsWith_def
        substring_def LF_def CR_def example_runtime_def json_read_def skip_space_def json_space_def
        unescape_def delta_content_def and_then_def)
  from upstream_failure_no_partial_output [OF v,
      where up = \<open>streaming [Data (''data: {"choices":[{"delta":{"content":"Hel"}}]}'' @ [LF]), Error ''aborted'']\<close>
        and err = "''aborted''" and data = "JObj []" and later = "[]"
        and chunks = \<open>[''data: {"choices":[{"delta":{"content":"Hel"}}]}'' @ [LF]]\<close>]
  have \<open>reply (handler example_runtime (Some ''sk'')
     (streaming [Data (''data: {"choices":[{"delta":{"content":"Hel"}}]}'' @ [LF]), Error ''aborted''])
     (hello_body ''deepseek_chat'')) =
     Some \<lparr>status = 500,
       body = JObj [(''error'', JStr ''Failed to process the request. Details: aborted'')]\<rparr>\<close>
    by (simp add: streaming_def)
  with v d show ?thesis by simp
qed

theorem context_reset_uses_fixed_model_class_witness:
  "validation example_runtime (Some ''sk'') (hello_body ''deepseek_chat'') =
     Inr (''sk'', Some (JStr ''Hello, how are you?''), Some (JStr ''deepseek_chat'')) \<and>
   calls (handler example_runtime (Some ''sk'') (streaming [End]) (hello_body ''deepseek_chat'')) =
     [ClearContext ''Bearer sk''
        (JObj [(''model_class'', JStr ''deepseek_code''), (''append_welcome_message'', JBool False)]),
      Completions ''Bearer sk''
        (JObj [(''message'', JStr ''Hello, how are you?''), (''stream'', JBool True),
               (''model_preference'', JNull), (''model_class'', JStr ''deepseek_chat''),
               (''temperature'', JNum True ''1'')])]"
proof -
  have v: "validation example_runtime (Some ''sk'') (hello_body ''deepseek_chat'') =
     Inr (''sk'', Some (JStr ''Hello, how are you?''), Some (JStr ''deepseek_chat''))"
    by (rule hello_body_passes) (simp add: VALID_MODELS_def)
  have c: "clear_context (streaming [End]) (bearer ''sk'') clearPayload = Inr (JObj [])"
    by (simp add: streaming_def)
  from context_reset_uses_fixed_model_class
    [of example_runtime "Some ''sk''" "streaming [End]" "hello_body ''deepseek_chat''" "''sk''"
        "Some (JStr ''Hello, how are you?'')" "JObj []"] v c
  show ?thesis
    by (simp add: bearer_def clearPayload_def userPayload_def or_else_def DEEPSEEK_MODEL_CLASS_def)
qed

section \<open>The stream: deltas, chunks and malformed lines\<close>

lemma sendMessage_drained:
  "completions up (bearer key) (userPayload message model) = Inr (map Data chunks @ [End]) \<Longrightarrow>
     fst (sendMessage rt up key message model) = Resolved (concat (map (on_data rt []) chunks))"
  by (simp add: sendMessage_stream drain_end)

lemma sendMessage_streaming:
  "fst (sendMessage rt (streaming events) key message model) = drain rt events"
  by (simp add: sendMessage_def streaming_def)

lemma concat_chunks_lines:
  "concat (map (on_data rt []) chunks) =
     concat (map (line_delta rt) (concat (map split_lines chunks)))"
  by (induction chunks) (simp_all add: on_data_lines)

lemma member_at_name:
  "truthy (Some v) \<Longrightarrow> member (Some v) name = Inr (at_name name v)"
  by (cases v) simp_all

lemma first_at_first:
  "truthy (Some v) \<Longrightarrow>
     first (Some v) = Inr (case v of JStr (c # cs) \<Rightarrow> Some (JStr [c]) | _ \<Rightarrow> at_first v)"
  by (cases v rule: at_first.cases) (auto split: list.splits)

lemma at_name_truthy: "at_name name v = Some w \<Longrightarrow> truthy (Some v)"
  by (cases v) simp_all

lemma at_first_truthy: "at_first v = Some w \<Longrightarrow> truthy (Some v)"
  by (cases v) simp_all

lemma and_then_falsy: "\<not> truthy v \<Longrightarrow> and_then (Inr v) f = Inr v"
  by (simp add: and_then_def)

lemma and_then_truthy: "truthy v \<Longrightarrow> and_then (Inr v) f = f v"
  by (simp add: and_then_def)

lemma delta_content_found:
  assumes "content_at event = Some v"
  shows "delta_content event = Inr (Some v)"
proof -
  from assms obtain choices choice delta where
    p: "at_name ''choices'' event = Some choices" "at_first choices = Some choice"
      "at_name ''delta'' choice = Some delta" "at_name ''content'' delta = Some v"
    by (auto simp add: content_at_def split: option.splits)
  have t: "truthy (Some event)" "truthy (Some choices)" "truthy (Some choice)" "truthy (Some delta)"
    using p by (auto dest: at_name_truthy at_first_truthy)
  have f: "first (Some choices) = Inr (Some choice)"
    using p(2) t(2) by (cases choices rule: at_first.cases) auto
  show ?thesis
    unfolding delta_content_def
    by (simp add: member_at_name t p f and_then_truthy)
qed

lemma delta_content_missing:
  assumes "content_at event = None"
  shows "(\<exists>e. delta_content event = Inl e) \<or> (\<exists>v. delta_content event = Inr v \<and> \<not> truthy v)"
proof (cases "truthy (Some event)")
  case False
  then show ?thesis
    by (cases event) (simp_all add: delta_content_def and_then_def)
next
  case e: True
  show ?thesis
  proof (cases "at_name ''choices'' event")
    case None
    then show ?thesis
      by (simp add: delta_content_def member_at_name e and_then_falsy)
  next
    case (Some choices)
    note c = this
    show ?thesis
    proof (cases "truthy (Some choices)")
      case False
      then show ?thesis
        by (simp add: delta_content_def member_at_name e c and_then_falsy)
    next
      case ct: True
      show ?thesis
      proof (cases "first (Some choices)")
        case (Inl err)
        then show ?thesis
          by (simp add: delta_content_def member_at_name e c and_then_truthy ct and_then_def)
      next
        case (Inr choice)
        note f = this
        show ?thesis
        proof (cases "truthy choice")
          case False
          then show ?thesis
            by (simp add: delta_content_def member_at_name e c and_then_truthy ct f and_then_falsy)
        next
          case cht: True
          then obtain ch where ch: "choice = Some ch" by (cases choice) auto
          show ?thesis
          proof (cases "at_name ''delta'' ch")
            case None
            then show ?thesis
              using cht ch
              by (simp add: delta_content_def member_at_name e c and_then_truthy ct f and_then_falsy)
          next
            case (Some delta)
            note d = this
            have chobj: "at_first choices = Some ch"
              using f ch ct d by (cases choices rule: at_first.cases) (auto simp add: neq_Nil_conv)
            show ?thesis
            proof (cases "truthy (Some delta)")
              case False
              then show ?thesis
                using cht ch
                by (simp add: delta_content_def member_at_name e c and_then_truthy ct f d and_then_falsy)
            next
              case dt: True
              have "at_name ''content'' delta = None"
                using assms c chobj d by (simp add: content_at_def)
              then show ?thesis
                using cht ch dt
                by (simp add: delta_content_def member_at_name e c and_then_truthy ct f d)
            qed
          qed
        qed
      qed
    qed
  qed
qed

lemma appended_falsy: "\<not> truthy v \<Longrightarrow> appended v = []"
  by (cases v rule: appended.cases) auto

lemma appended_truthy:
  "truthy (Some v) \<Longrightarrow> appended (Some v) = (case to_text v of None \<Rightarrow> [] | Some shown \<Rightarrow> shown)"
  by (cases v) auto

lemma line_delta_delta_of_line: "line_delta rt line = delta_of_line rt line"
proof (cases "startsWith (trim line) ''data: ''")
  case False
  then show ?thesis by (simp add: line_delta_def delta_of_line_def on_line_def)
next
  case prefixed: True
  show ?thesis
  proof (cases "JSON_parse rt (substring (trim line) 6)")
    case None
    with prefixed show ?thesis
      by (simp add: line_delta_def delta_of_line_def on_line_def try_line_def)
  next
    case (Some event)
    note parsed = this
    show ?thesis
    proof (cases "content_at event")
      case None
      from delta_content_missing [OF this] have "try_line rt [] (substring (trim line) 6) = Inr []
          \<or> (\<exists>e. try_line rt [] (substring (trim line) 6) = Inl e)"
        by (auto simp add: try_line_def parsed split: option.splits)
      with prefixed parsed None show ?thesis
        by (auto simp add: line_delta_def delta_of_line_def on_line_def)
    next
      case (Some v)
      from delta_content_found [OF this] prefixed parsed Some show ?thesis
        by (cases "truthy (Some v)")
           (simp_all add: line_delta_def delta_of_line_def on_line_def try_line_def
              appended_falsy appended_truthy split: option.splits)
    qed
  qed
qed

lemma content_at_delta:
  "content_at event = Some (JStr s) \<Longrightarrow> delta_content event = Inr (Some (JStr s))"
  by (rule delta_content_found)

lemma line_delta_text:
  assumes "startsWith (trim line) ''data: ''"
    and "JSON_parse rt (substring (trim line) 6) = Some event"
    and "content_at event = Some (JStr s)"
  shows "line_delta rt line = s"
  using assms content_at_delta [OF assms(3)]
  by (simp add: line_delta_def on_line_def try_line_def)

lemma line_delta_other: "\<not> startsWith (trim line) ''data: '' \<Longrightarrow> line_delta rt line = []"
  by (simp add: line_delta_def on_line_def)

lemma line_delta_malformed: "malformed rt line \<Longrightarrow> line_delta rt line = []"
  by (simp add: malformed_def line_delta_def on_line_def try_line_def)

lemma trim_data_line:
  \<open>trim (''data: '' @ delta_json s) = ''data: '' @ delta_json s\<close>
  by (simp add: trim_def delta_json_def is_space_def)

lemma content_at_delta_event: "content_at (delta_event s) = Some (JStr s)"
  by (simp add: content_at_def delta_event_def)

lemma line_delta_delta_json:
  "JSON_parse rt (delta_json s) = Some (delta_event s) \<Longrightarrow>
     line_delta rt (''data: '' @ delta_json s) = s"
proof (rule line_delta_text [where event = "delta_event s"])
  show "startsWith (trim (''data: '' @ delta_json s)) ''data: ''"
    unfolding trim_data_line by (simp add: startsWith_def)
  show "JSON_parse rt (substring (trim (''data: '' @ delta_json s)) 6) = Some (delta_event s)"
    if "JSON_parse rt (delta_json s) = Some (delta_event s)"
    unfolding trim_data_line using that by (simp add: substring_def)
  show "content_at (delta_event s) = Some (JStr s)"
    by (rule content_at_delta_event)
qed

lemma split_delta_line:
  "split_lines (''data: '' @ delta_json ''Hel'') = [''data: '' @ delta_json ''Hel'']"
  "split_lines (''data: '' @ delta_json ''lo'') = [''data: '' @ delta_json ''lo'']"
  "split_lines (''data: '' @ delta_json ''Hel'' @ [LF]) = [''data: '' @ delta_json ''Hel'', []]"
  "split_lines (''data: '' @ delta_json ''lo'' @ [LF]) = [''data: '' @ delta_json ''lo'', []]"
  by (simp_all add: delta_json_def LF_def CR_def)

lemma hello_chunks:
  assumes "JSON_parse rt (delta_json ''Hel'') = Some (delta_event ''Hel'')"
    and "JSON_parse rt (delta_json ''lo'') = Some (delta_event ''lo'')"
  shows "on_data rt [] (''data: '' @ delta_json ''Hel'') = ''Hel''"
    and "on_data rt [] (''data: '' @ delta_json ''lo'') = ''lo''"
    and "on_data rt [] (''data: '' @ delta_json ''Hel'' @ [LF]) = ''Hel''"
    and "on_data rt [] (''data: '' @ delta_json ''lo'' @ [LF]) = ''lo''"
proof -
  have l: "line_delta rt (''data: '' @ delta_json ''Hel'') = ''Hel''"
    "line_delta rt (''data: '' @ delta_json ''lo'') = ''lo''"
    using assms by (simp_all only: line_delta_delta_json)
  show "on_data rt [] (''data: '' @ delta_json ''Hel'') = ''Hel''"
    "on_data rt [] (''data: '' @ delta_json ''lo'') = ''lo''"
    "on_data rt [] (''data: '' @ delta_json ''Hel'' @ [LF]) = ''Hel''"
    "on_data rt [] (''data: '' @ delta_json ''lo'' @ [LF]) = ''lo''"
    unfolding on_data_lines split_delta_line
    by (simp_all only: list.map concat.simps l line_delta_empty append_Nil append_Nil2)
qed

lemma hello_stream:
  assumes "JSON_parse rt (delta_json ''Hel'') = Some (delta_event ''Hel'')"
    and "JSON_parse rt (delta_json ''lo'') = Some (delta_event ''lo'')"
  shows "drain rt [Data (''data: '' @ delta_json ''Hel''), Data (''data: '' @ delta_json ''lo''), End] =
           Resolved ''Hello''"
    and "drain rt [Data (''data: '' @ delta_json ''Hel'' @ [LF]),
                   Data (''data: '' @ delta_json ''lo'' @ [LF]), End] = Resolved ''Hello''"
proof -
  have "drain rt (map Data [''data: '' @ delta_json ''Hel'', ''data: '' @ delta_json ''lo''] @ End # []) =
      Resolved (''Hel'' @ ''lo'' @ [])"
    unfolding drain_end
    by (simp only: list.map concat.simps hello_chunks [OF assms])
  then show "drain rt [Data (''data: '' @ delta_json ''Hel''), Data (''data: '' @ delta_json ''lo''), End] =
           Resolved ''Hello''"
    by simp
  have "drain rt (map Data [''data: '' @ delta_json ''Hel'' @ [LF],
      ''data: '' @ delta_json ''lo'' @ [LF]] @ End # []) = Resolved (''Hel'' @ ''lo'' @ [])"
    unfolding drain_end
    by (simp only: list.map concat.simps hello_chunks [OF assms])
  then show "drain rt [Data (''data: '' @ delta_json ''Hel'' @ [LF]),
                   Data (''data: '' @ delta_json ''lo'' @ [LF]), End] = Resolved ''Hello''"
    by simp
qed

lemma line_delta_content_string:
  assumes "text_only rt line"
  shows "line_delta rt line = content_string rt line"
proof -
  have "appended (Some v) = text_of v" if "is_text v \<or> \<not> truthy (Some v)" for v
    using that by (cases v) auto
  with assms have "delta_of_line rt line = content_string rt line"
    by (auto simp add: text_only_def delta_of_line_def content_string_def split: option.splits)
  then show ?thesis by (simp add: line_delta_delta_of_line)
qed

lemma map_line_delta_content_string:
  "list_all (text_only rt) ls \<Longrightarrow> map (line_delta rt) ls = map (content_string rt) ls"
  by (induction ls) (simp_all add: line_delta_content_string)

lemma reader_accepts_delta:
  "JSON_parse example_runtime (delta_json ''Hel'') = Some (delta_event ''Hel'')"
  "JSON_parse example_runtime (delta_json ''lo'') = Some (delta_event ''lo'')"
  "JSON_parse example_runtime (delta_json ''Hello'') = Some (delta_event ''Hello'')"
  by (simp_all add: example_runtime_def delta_json_def delta_event_def json_read_def skip_space_def
      json_space_def unescape_def)

lemma example_lines:
  "split_lines (concat [''data: '' @ delta_json ''Hel'' @ [LF], ''data: '' @ delta_json ''lo'' @ [LF]]) =
     [''data: '' @ delta_json ''Hel'', ''data: '' @ delta_json ''lo'', []]"
  by (simp add: delta_json_def LF_def CR_def)

lemma example_text_only:
  "list_all (text_only example_runtime)
     [''data: '' @ delta_json ''Hel'', ''data: '' @ delta_json ''lo'', []]"
proof -
  have a: "text_only example_runtime (''data: '' @ delta_json ''Hel'')"
    "text_only example_runtime (''data: '' @ delta_json ''lo'')"
    unfolding text_only_def trim_data_line
    using reader_accepts_delta(1,2)
    by (simp_all add: substring_def startsWith_def content_at_delta_event)
  have b: "text_only example_runtime []"
    by (simp add: text_only_def trim_def startsWith_def)
  show ?thesis
    by (simp only: list.pred_inject a b simp_thms)
qed

text \<open>
  C1 as stated fails: the stream of the one whole line
  \<^verbatim>\<open>data: {"choices":[{"delta":{"content":5}}]}\<close> resolves to \<^verbatim>\<open>5\<close>, while no line of it
  has a text at \<^verbatim>\<open>choices[0].delta.content\<close>.
\<close>

theorem numeric_content_is_appended:
  \<open>whole_lines (''data: {"choices":[{"delta":{"content":5}}]}'' @ [LF])
   \<and> JSON_parse example_runtime ''{"choices":[{"delta":{"content":5}}]}'' =
       Some (JObj [(''choices'', JArr [JObj [(''delta'', JObj [(''content'', JNum True ''5'')])]])])
   \<and> fst (sendMessage example_runtime
        (streaming [Data (''data: {"choices":[{"delta":{"content":5}}]}'' @ [LF]), End])
        ''sk'' (Some (JStr ''Hi'')) None) = Resolved ''5''
   \<and> concat (map (content_string example_runtime)
        (split_lines (concat [''data: {"choices":[{"delta":{"content":5}}]}'' @ [LF]]))) = []\<close>
  by (simp add: whole_lines_def sendMessage_def streaming_def drain_def on_event_def on_data_def
      on_line_def try_line_def delta_content_def and_then_def content_string_def content_at_def
      trim_def is_space_def startsWith_def substring_def LF_def CR_def
      example_runtime_def json_read_def skip_space_def json_space_def unescape_def
      read_number_def is_digit_def)

text \<open>
  C1, amended. When the stream is a sequence of chunks and then its end, \<^verbatim>\<open>sendMessage\<close>
  resolves to the concatenation, in order, of what each line of each chunk stands for; when
  every chunk consists of whole lines, these are the lines of the whole stream. A line
  stands for something only when it is prefixed \<^verbatim>\<open>data: \<close> and its remainder is JSON: for
  the text at \<^verbatim>\<open>choices[0].delta.content\<close> when that content is a text, for the string
  conversion of the content when it is another truthy value. So when no line carries a
  truthy content that is not a text, the result is the concatenation, in order, of the
  texts found at \<^verbatim>\<open>choices[0].delta.content\<close> in the lines prefixed \<^verbatim>\<open>data: \<close>. The stream
  of the delta \<^verbatim>\<open>Hel\<close> and the delta \<^verbatim>\<open>lo\<close> gives \<^verbatim>\<open>Hello\<close>, with or without line feeds
  ending the chunks.
\<close>

theorem sendMessage_concatenates_deltas:
  assumes "completions up (bearer key) (userPayload message model) = Inr (map Data chunks @ [End])"
  shows "fst (sendMessage rt up key message model) =
           Resolved (concat (map (delta_of_line rt) (concat (map split_lines chunks))))
     \<and> (list_all whole_lines chunks \<longrightarrow>
          fst (sendMessage rt up key message model) =
            Resolved (concat (map (delta_of_line rt) (split_lines (concat chunks)))))
     \<and> (list_all whole_lines chunks \<and>
        list_all (text_only rt) (split_lines (concat chunks)) \<longrightarrow>
          fst (sendMessage rt up key message model) =
            Resolved (concat (map (content_string rt) (split_lines (concat chunks)))))
     \<and> (startsWith (trim line) ''data: '' \<and>
        JSON_parse rt (substring (trim line) 6) = Some event \<and>
        content_at event = Some (JStr s) \<longrightarrow> delta_of_line rt line = s)
     \<and> (\<not> startsWith (trim other) ''data: '' \<longrightarrow> delta_of_line rt other = [])
     \<and> (JSON_parse rt (delta_json ''Hel'') = Some (delta_event ''Hel'') \<and>
        JSON_parse rt (delta_json ''lo'') = Some (delta_event ''lo'') \<longrightarrow>
          fst (sendMessage rt
            (streaming [Data (''data: '' @ delta_json ''Hel''), Data (''data: '' @ delta_json ''lo''), End])
            key message model) = Resolved ''Hello'' \<and>
          fst (sendMessage rt
            (streaming [Data (''data: '' @ delta_json ''Hel'' @ [LF]),
                        Data (''data: '' @ delta_json ''lo'' @ [LF]), End])
            key message model) = Resolved ''Hello'')"
proof -
  have same: "line_delta rt = delta_of_line rt"
    by (rule ext) (rule line_delta_delta_of_line)
  have a: "fst (sendMessage rt up key message model) =
           Resolved (concat (map (delta_of_line rt) (concat (map split_lines chunks))))"
    using sendMessage_drained [OF assms] by (simp add: concat_chunks_lines same)
  have b: "fst (sendMessage rt up key message model) =
            Resolved (concat (map (delta_of_line rt) (split_lines (concat chunks))))"
    if "list_all whole_lines chunks"
    using sendMessage_drained [OF assms] whole_stream [of chunks rt] that
    by (simp add: list_all_iff same)
  have f: "fst (sendMessage rt up key message model) =
            Resolved (concat (map (content_string rt) (split_lines (concat chunks))))"
    if "list_all whole_lines chunks" "list_all (text_only rt) (split_lines (concat chunks))"
    using sendMessage_drained [OF assms] whole_stream [of chunks rt] that(1)
      map_line_delta_content_string [OF that(2)]
    by (simp add: list_all_iff)
  have c: "delta_of_line rt line = s"
    if "startsWith (trim line) ''data: ''" "JSON_parse rt (substring (trim line) 6) = Some event"
      "content_at event = Some (JStr s)"
    using that by (simp add: delta_of_line_def)
  have d: "delta_of_line rt other = []" if "\<not> startsWith (trim other) ''data: ''"
    using that by (simp add: delta_of_line_def)
  have e: "fst (sendMessage rt
            (streaming [Data (''data: '' @ delta_json ''Hel''), Data (''data: '' @ delta_json ''lo''), End])
            key message model) = Resolved ''Hello'' \<and>
          fst (sendMessage rt
            (streaming [Data (''data: '' @ delta_json ''Hel'' @ [LF]),
                        Data (''data: '' @ delta_json ''lo'' @ [LF]), End])
            key message model) = Resolved ''Hello''"
    if "JSON_parse rt (delta_json ''Hel'') = Some (delta_event ''Hel'')"
      "JSON_parse rt (delta_json ''lo'') = Some (delta_event ''lo'')"
    unfolding sendMessage_streaming using hello_stream [OF that] by (rule conjI)
  from a b f c d e show ?thesis by blast
qed

theorem sendMessage_concatenates_deltas_witness:
  "completions
     (streaming (map Data [''data: '' @ delta_json ''Hel'' @ [LF], ''data: '' @ delta_json ''lo'' @ [LF]]
        @ [End]))
     (bearer ''sk'') (userPayload (Some (JStr ''Hi'')) None) =
     Inr (map Data [''data: '' @ delta_json ''Hel'' @ [LF], ''data: '' @ delta_json ''lo'' @ [LF]] @ [End])
   \<and> list_all whole_lines [''data: '' @ delta_json ''Hel'' @ [LF], ''data: '' @ delta_json ''lo'' @ [LF]]
   \<and> list_all (text_only example_runtime)
        (split_lines (concat [''data: '' @ delta_json ''Hel'' @ [LF], ''data: '' @ delta_json ''lo'' @ [LF]]))
   \<and> startsWith (trim (''data: '' @ delta_json ''Hel'')) ''data: ''
   \<and> JSON_parse example_runtime (substring (trim (''data: '' @ delta_json ''Hel'')) 6) =
       Some (delta_event ''Hel'')
   \<and> JSON_parse example_runtime (delta_json ''lo'') = Some (delta_event ''lo'')
   \<and> content_at (delta_event ''Hel'') = Some (JStr ''Hel'')
   \<and> \<not> startsWith (trim ''[DONE]'') ''data: ''
   \<and> delta_of_line example_runtime (''data: '' @ delta_json ''Hel'') = ''Hel''
   \<and> delta_of_line example_runtime ''[DONE]'' = []
   \<and> fst (sendMessage example_runtime
        (streaming (map Data [''data: '' @ delta_json ''Hel'' @ [LF], ''data: '' @ delta_json ''lo'' @ [LF]]
           @ [End]))
        ''sk'' (Some (JStr ''Hi'')) None) =
      Resolved (concat (map (content_string example_runtime)
        (split_lines (concat [''data: '' @ delta_json ''Hel'' @ [LF], ''data: '' @ delta_json ''lo'' @ [LF]]))))
   \<and> fst (sendMessage example_runtime
        (streaming [Data (''data: '' @ delta_json ''Hel'' @ [LF]),
                    Data (''data: '' @ delta_json ''lo'' @ [LF]), End])
        ''sk'' (Some (JStr ''Hi'')) None) = Resolved ''Hello''"
proof -
  let ?chunks = "[''data: '' @ delta_json ''Hel'' @ [LF], ''data: '' @ delta_json ''lo'' @ [LF]]"
  have h1: "completions (streaming (map Data ?chunks @ [End])) (bearer ''sk'')
      (userPayload (Some (JStr ''Hi'')) None) = Inr (map Data ?chunks @ [End])"
    by (simp add: streaming_def)
  have h2: "list_all whole_lines ?chunks"
    by (simp add: whole_lines_def)
  have h3: "startsWith (trim (''data: '' @ delta_json ''Hel'')) ''data: ''"
    unfolding trim_data_line by (simp add: startsWith_def)
  have h4: "JSON_parse example_runtime (substring (trim (''data: '' @ delta_json ''Hel'')) 6) =
      Some (delta_event ''Hel'')"
    unfolding trim_data_line using reader_accepts_delta(1) by (simp add: substring_def)
  have h5: "content_at (delta_event ''Hel'') = Some (JStr ''Hel'')"
    by (rule content_at_delta_event)
  have h6: "\<not> startsWith (trim ''[DONE]'') ''data: ''"
    by (simp add: startsWith_def trim_def is_space_def)
  have h7: "list_all (text_only example_runtime) (split_lines (concat ?chunks))"
    unfolding example_lines by (rule example_text_only)
  note t = sendMessage_concatenates_deltas [OF h1, of example_runtime "''data: '' @ delta_json ''Hel''"
      "delta_event ''Hel''" "''Hel''" "''[DONE]''"]
  from t h1 h2 h3 h4 h5 h6 h7 reader_accepts_delta(1,2) show ?thesis
    by blast
qed

lemma skip_malformed:
  "concat (map (line_delta rt) (filter (\<lambda>l. \<not> malformed rt l) ls)) = concat (map (line_delta rt) ls)"
  by (induction ls) (simp_all add: line_delta_malformed)

lemma on_line_malformed: "malformed rt line \<Longrightarrow> on_line rt acc line = acc"
  using line_delta_malformed [of rt line] on_line_append [of rt acc line]
  by (simp add: line_delta_def)

lemma split_three_lines:
  "split_lines (''data: '' @ delta_json ''Hel'' @ [LF] @ ''data: {oops'' @ [LF] @
     ''data: '' @ delta_json ''lo'' @ [LF]) =
   [''data: '' @ delta_json ''Hel'', ''data: {oops'', ''data: '' @ delta_json ''lo'', []]"
  by (simp add: delta_json_def LF_def CR_def)

lemma oops_malformed: "JSON_parse rt ''{oops'' = None \<Longrightarrow> malformed rt ''data: {oops''"
  by (simp add: malformed_def trim_def is_space_def startsWith_def substring_def)

text \<open>
  C3. A line prefixed \<^verbatim>\<open>data: \<close> whose remainder \<^verbatim>\<open>JSON.parse\<close> rejects leaves the
  accumulator as it was, and the loop goes on as if the line were not there. A stream of
  chunks and then its end always resolves, to the concatenation of the contributions of
  the lines that are not malformed. A chunk with the delta \<^verbatim>\<open>Hel\<close>, a malformed line and
  the delta \<^verbatim>\<open>lo\<close> gives \<^verbatim>\<open>Hello\<close>.
\<close>

theorem malformed_line_is_skipped:
  "(malformed rt line \<longrightarrow>
      on_line rt acc line = acc \<and>
      foldl (on_line rt) acc (before @ line # after) = foldl (on_line rt) acc (before @ after))
   \<and> (completions up (bearer key) (userPayload message model) = Inr (map Data chunks @ [End]) \<longrightarrow>
        fst (sendMessage rt up key message model) =
          Resolved (concat (map (line_delta rt)
            (filter (\<lambda>l. \<not> malformed rt l) (concat (map split_lines chunks))))))
   \<and> (JSON_parse rt (delta_json ''Hel'') = Some (delta_event ''Hel'') \<and>
      JSON_parse rt ''{oops'' = None \<and>
      JSON_parse rt (delta_json ''lo'') = Some (delta_event ''lo'') \<longrightarrow>
        malformed rt ''data: {oops'' \<and>
        fst (sendMessage rt
          (streaming [Data (''data: '' @ delta_json ''Hel'' @ [LF] @ ''data: {oops'' @ [LF] @
                            ''data: '' @ delta_json ''lo'' @ [LF]), End])
          key message model) = Resolved ''Hello'')"
proof -
  have a: "on_line rt acc line = acc \<and>
      foldl (on_line rt) acc (before @ line # after) = foldl (on_line rt) acc (before @ after)"
    if "malformed rt line"
    using that by (simp add: on_line_malformed)
  have b: "fst (sendMessage rt up key message model) =
          Resolved (concat (map (line_delta rt)
            (filter (\<lambda>l. \<not> malformed rt l) (concat (map split_lines chunks)))))"
    if "completions up (bearer key) (userPayload message model) = Inr (map Data chunks @ [End])"
    using sendMessage_drained [OF that] by (simp add: concat_chunks_lines skip_malformed)
  have c: "malformed rt ''data: {oops'' \<and>
        fst (sendMessage rt
          (streaming [Data (''data: '' @ delta_json ''Hel'' @ [LF] @ ''data: {oops'' @ [LF] @
                            ''data: '' @ delta_json ''lo'' @ [LF]), End])
          key message model) = Resolved ''Hello''"
    if p: "JSON_parse rt (delta_json ''Hel'') = Some (delta_event ''Hel'')"
      "JSON_parse rt ''{oops'' = None"
      "JSON_parse rt (delta_json ''lo'') = Some (delta_event ''lo'')"
  proof -
    have m: "malformed rt ''data: {oops''" using p(2) by (rule oops_malformed)
    have l: "line_delta rt (''data: '' @ delta_json ''Hel'') = ''Hel''"
      "line_delta rt (''data: '' @ delta_json ''lo'') = ''lo''"
      "line_delta rt ''data: {oops'' = []"
      using p(1,3) m by (simp_all only: line_delta_delta_json line_delta_malformed)
    have "on_data rt [] (''data: '' @ delta_json ''Hel'' @ [LF] @ ''data: {oops'' @ [LF] @
        ''data: '' @ delta_json ''lo'' @ [LF]) = ''Hel'' @ [] @ ''lo'' @ [] @ []"
      unfolding on_data_lines split_three_lines
      by (simp only: list.map concat.simps l line_delta_empty append_Nil)
    then have "drain rt (map Data [''data: '' @ delta_json ''Hel'' @ [LF] @ ''data: {oops'' @ [LF] @
        ''data: '' @ delta_json ''lo'' @ [LF]] @ End # []) = Resolved ((''Hel'' @ [] @ ''lo'' @ [] @ []) @ [])"
      unfolding drain_end by (simp only: list.map concat.simps)
    then have "drain rt [Data (''data: '' @ delta_json ''Hel'' @ [LF] @ ''data: {oops'' @ [LF] @
        ''data: '' @ delta_json ''lo'' @ [LF]), End] = Resolved ''Hello''"
      by simp
    with m show ?thesis by (simp only: sendMessage_streaming)
  qed
  from a b c show ?thesis by blast
qed

lemma reader_rejects:
  "JSON_parse example_runtime ''{oops'' = None"
  \<open>JSON_parse example_runtime ''{"choices":[{"delta":{"content":"Hel'' = None\<close>
  by (simp_all add: example_runtime_def json_read_def skip_space_def json_space_def unescape_def
      read_number_def is_digit_def)

theorem malformed_line_is_skipped_witness:
  "malformed example_runtime ''data: {oops''
   \<and> completions
       (streaming (map Data [''data: '' @ delta_json ''Hel'' @ [LF] @ ''data: {oops'' @ [LF] @
          ''data: '' @ delta_json ''lo'' @ [LF]] @ [End]))
       (bearer ''sk'') (userPayload (Some (JStr ''Hi'')) None) =
       Inr (map Data [''data: '' @ delta_json ''Hel'' @ [LF] @ ''data: {oops'' @ [LF] @
          ''data: '' @ delta_json ''lo'' @ [LF]] @ [End])
   \<and> JSON_parse example_runtime (delta_json ''Hel'') = Some (delta_event ''Hel'')
   \<and> JSON_parse example_runtime ''{oops'' = None
   \<and> JSON_parse example_runtime (delta_json ''lo'') = Some (delta_event ''lo'')
   \<and> on_line example_runtime ''Hel'' ''data: {oops'' = ''Hel''
   \<and> fst (sendMessage example_runtime
        (streaming [Data (''data: '' @ delta_json ''Hel'' @ [LF] @ ''data: {oops'' @ [LF] @
                          ''data: '' @ delta_json ''lo'' @ [LF]), End])
        ''sk'' (Some (JStr ''Hi'')) None) = Resolved ''Hello''"
proof -
  let ?chunk = "''data: '' @ delta_json ''Hel'' @ [LF] @ ''data: {oops'' @ [LF] @
          ''data: '' @ delta_json ''lo'' @ [LF]"
  have m: "malformed example_runtime ''data: {oops''"
    using reader_rejects(1) by (rule oops_malformed)
  have h: "completions (streaming (map Data [?chunk] @ [End])) (bearer ''sk'')
      (userPayload (Some (JStr ''Hi'')) None) = Inr (map Data [?chunk] @ [End])"
    by (simp add: streaming_def)
  note t = malformed_line_is_skipped [of example_runtime "''data: {oops''" "''Hel''" "[]" "[]"
      "streaming (map Data [?chunk] @ [End])" "''sk''" "Some (JStr ''Hi'')" None "[?chunk]"]
  from t m h reader_accepts_delta(1,2) reader_rejects(1) show ?thesis
    by blast
qed

text \<open>
  C2. Each chunk contributes on its own: the result is the concatenation of what the
  listener makes of each chunk from an empty accumulator, nothing is carried from one
  chunk to the next. The line of the delta \<^verbatim>\<open>Hello\<close> gives \<^verbatim>\<open>Hello\<close> when it arrives in
  one chunk, and the empty text when the same bytes arrive cut inside the JSON or inside
  the prefix.
\<close>

theorem split_line_loses_delta:
  \<open>(completions up (bearer key) (userPayload message model) = Inr (map Data chunks @ [End]) \<longrightarrow>
      fst (sendMessage rt up key message model) = Resolved (concat (map (on_data rt []) chunks)))
   \<and> ''data: {"choices":[{"delta":{"content":"Hel'' @ (''lo"}}]}'' @ [LF]) =
       ''data: '' @ delta_json ''Hello'' @ [LF]
   \<and> (JSON_parse rt (delta_json ''Hello'') = Some (delta_event ''Hello'') \<and>
      JSON_parse rt ''{"choices":[{"delta":{"content":"Hel'' = None \<longrightarrow>
        fst (sendMessage rt (streaming [Data (''data: '' @ delta_json ''Hello'' @ [LF]), End])
          key message model) = Resolved ''Hello'' \<and>
        fst (sendMessage rt
          (streaming [Data ''data: {"choices":[{"delta":{"content":"Hel'',
                      Data (''lo"}}]}'' @ [LF]), End])
          key message model) = Resolved [])
   \<and> (JSON_parse rt (delta_json ''Hello'') = Some (delta_event ''Hello'') \<longrightarrow>
        fst (sendMessage rt
          (streaming [Data ''da'', Data (''ta: '' @ delta_json ''Hello'' @ [LF]), End])
          key message model) = Resolved [])\<close>
proof -
  have a: "fst (sendMessage rt up key message model) = Resolved (concat (map (on_data rt []) chunks))"
    if "completions up (bearer key) (userPayload message model) = Inr (map Data chunks @ [End])"
    using that by (rule sendMessage_drained)
  have b: \<open>''data: {"choices":[{"delta":{"content":"Hel'' @ (''lo"}}]}'' @ [LF]) =
       ''data: '' @ delta_json ''Hello'' @ [LF]\<close>
    by (simp add: delta_json_def)
  have whole: "fst (sendMessage rt (streaming [Data (''data: '' @ delta_json ''Hello'' @ [LF]), End])
          key message model) = Resolved ''Hello''"
    if p: "JSON_parse rt (delta_json ''Hello'') = Some (delta_event ''Hello'')"
  proof -
    have s: "split_lines (''data: '' @ delta_json ''Hello'' @ [LF]) = [''data: '' @ delta_json ''Hello'', []]"
      by (simp add: delta_json_def LF_def CR_def)
    have l: "line_delta rt (''data: '' @ delta_json ''Hello'') = ''Hello''"
      using p by (rule line_delta_delta_json)
    have "on_data rt [] (''data: '' @ delta_json ''Hello'' @ [LF]) = ''Hello'' @ [] @ []"
      unfolding on_data_lines s
      by (simp only: list.map concat.simps l line_delta_empty append_Nil)
    then have "drain rt (map Data [''data: '' @ delta_json ''Hello'' @ [LF]] @ End # []) =
        Resolved ((''Hello'' @ [] @ []) @ [])"
      unfolding drain_end by (simp only: list.map concat.simps)
    then have "drain rt [Data (''data: '' @ delta_json ''Hello'' @ [LF]), End] = Resolved ''Hello''"
      by simp
    then show ?thesis by (simp only: sendMessage_streaming)
  qed
  have cut: \<open>fst (sendMessage rt
          (streaming [Data ''data: {"choices":[{"delta":{"content":"Hel'',
                      Data (''lo"}}]}'' @ [LF]), End])
          key message model) = Resolved []\<close>
    if p: \<open>JSON_parse rt ''{"choices":[{"delta":{"content":"Hel'' = None\<close>
  proof -
    have c1: \<open>on_data rt [] ''data: {"choices":[{"delta":{"content":"Hel'' = []\<close>
      using p
      by (simp add: on_data_def on_line_def try_line_def trim_def is_space_def startsWith_def
          substring_def LF_def CR_def)
    have c2: \<open>on_data rt [] (''lo"}}]}'' @ [LF]) = []\<close>
      by (simp add: on_data_def on_line_def trim_def is_space_def startsWith_def LF_def CR_def)
    have \<open>drain rt (map Data [''data: {"choices":[{"delta":{"content":"Hel'', ''lo"}}]}'' @ [LF]]
        @ End # []) = Resolved ([] @ [] @ [])\<close>
      unfolding drain_end by (simp only: list.map concat.simps c1 c2)
    then have \<open>drain rt [Data ''data: {"choices":[{"delta":{"content":"Hel'',
        Data (''lo"}}]}'' @ [LF]), End] = Resolved []\<close>
      by simp
    then show ?thesis by (simp only: sendMessage_streaming)
  qed
  have prefix_cut: "fst (sendMessage rt
          (streaming [Data ''da'', Data (''ta: '' @ delta_json ''Hello'' @ [LF]), End])
          key message model) = Resolved []"
  proof -
    have c1: "on_data rt [] ''da'' = []"
      by (simp add: on_data_def on_line_def trim_def is_space_def startsWith_def LF_def CR_def)
    have c2: "on_data rt [] (''ta: '' @ delta_json ''Hello'' @ [LF]) = []"
      by (simp add: on_data_def on_line_def trim_def is_space_def startsWith_def LF_def CR_def
          delta_json_def)
    have "drain rt (map Data [''da'', ''ta: '' @ delta_json ''Hello'' @ [LF]] @ End # []) =
        Resolved ([] @ [] @ [])"
      unfolding drain_end by (simp only: list.map concat.simps c1 c2)
    then have "drain rt [Data ''da'', Data (''ta: '' @ delta_json ''Hello'' @ [LF]), End] = Resolved []"
      by simp
    then show ?thesis by (simp only: sendMessage_streaming)
  qed
  from a b whole cut prefix_cut show ?thesis by blast
qed

theorem split_line_loses_delta_witness:
  \<open>JSON_parse example_runtime (delta_json ''Hello'') = Some (delta_event ''Hello'')
   \<and> JSON_parse example_runtime ''{"choices":[{"delta":{"content":"Hel'' = None
   \<and> fst (sendMessage example_runtime (streaming [Data (''data: '' @ delta_json ''Hello'' @ [LF]), End])
        ''sk'' (Some (JStr ''Hi'')) None) = Resolved ''Hello''
   \<and> fst (sendMessage example_runtime
        (streaming [Data ''data: {"choices":[{"delta":{"content":"Hel'',
                    Data (''lo"}}]}'' @ [LF]), End])
        ''sk'' (Some (JStr ''Hi'')) None) = Resolved []\<close>
  using split_line_loses_delta [of "streaming []" "''sk''" "Some (JStr ''Hi'')" None "[]" example_runtime]
    reader_accepts_delta(3) reader_rejects(2)
  by blast

end
